theory Spec2Isabelle
  imports Main
begin

section \<open>The confirmation step of the NFT bridge: data model\<close>

text \<open>
  The component \<^verbatim>\<open>ConfirmationStep.svelte\<close> holds a few variables of its own, reads the
  ambient stores of the application and calls collaborators that return promises. The
  model keeps the three apart: the component's variables and the stores are fields of
  the state, every call to a collaborator is written to a list of effects, and every
  \<^verbatim>\<open>await\<close> or \<^verbatim>\<open>.then\<close> leaves a task in the state that the environment resumes later
  with the outcome of the promise. Between two suspension points JavaScript runs without
  interruption, so one resumption is one step of the model. A collaborator that fails
  rejects its promise. Line 99 awaits the value of a synchronous call: the call is made at
  once, and its task waits only for the next turn.
\<close>

text \<open>A chain id is a JavaScript number; 0 is its only falsy value here.\<close>

type_synonym chainId = nat
type_synonym Address = string
type_synonym Hash = string

text \<open>
  Modelled from the spec: the enum \<^verbatim>\<open>TokenType\<close> is declared in \<^verbatim>\<open>$libs/token\<close>, which is
  not part of the source. The component names \<^verbatim>\<open>TokenType.ERC1155\<close> and the bridges
  \<^verbatim>\<open>ERC721Bridge\<close> and \<^verbatim>\<open>ERC1155Bridge\<close>; the spec speaks of a fungible-type tag besides the
  single-unit and the multi-unit NFT standard.
\<close>

datatype TokenType = ETH | ERC20 | ERC721 | ERC1155

text \<open>
  Modelled from the spec: the enum \<^verbatim>\<open>MessageStatus\<close> is declared in \<^verbatim>\<open>$libs/bridge\<close>, which
  is not part of the source. The component uses \<^verbatim>\<open>MessageStatus.NEW\<close> only (the spec's
  lifecycle status "new"); the later statuses are set elsewhere.
\<close>

datatype MessageStatus = NEW | RETRIABLE | DONE | FAILED

datatype Status = StatusPending | StatusDone

datatype Wallet = Wallet nat
datatype Bridge = Bridge nat
datatype BridgeArgs = BridgeArgs nat

record Token =
  tk_type :: TokenType
  tk_symbol :: string
  tk_decimals :: nat
  tk_addresses :: "(chainId \<times> Address) list"

text \<open>A token id is a number; \<^verbatim>\<open>BigInt\<close> of it (line 113) is the same integer.\<close>

record NFT =
  tokenId :: nat

record Account =
  address :: "Address option"

record RoutingContracts =
  erc721VaultAddress :: Address
  erc1155VaultAddress :: Address

record NFTApproveArgs =
  tokenIds :: "int list option"
  tokenAddress :: Address
  spenderAddress :: Address
  wallet :: Wallet

record CommonArgs =
  to_addr :: "Address option"
  ca_wallet :: Wallet
  ca_srcChainId :: chainId
  ca_destChainId :: "chainId option"
  fee :: int

record BridgeTransaction =
  hash :: Hash
  from_addr :: "Address option"
  amount :: int
  symbol :: "string option"
  decimals :: "nat option"
  srcChainId :: int
  destChainId :: int
  tokenType :: "TokenType option"
  status :: MessageStatus
  timestamp :: nat

text \<open>
  Errors are values. \<open>TypeError\<close> is what JavaScript raises when a property of
  \<^verbatim>\<open>undefined\<close> is read; \<open>Upstream\<close> stands for whatever a collaborator rejects with.
\<close>

datatype error = BridgePausedError string | Error string | TypeError | Upstream string

text \<open>A localized message: a literal, or a key of \<^verbatim>\<open>$t\<close> with its values.\<close>

datatype message = Literal string | T string "(string \<times> string) list"

text \<open>
  The ambient stores the component reads with \<^verbatim>\<open>$store\<close>. A network is kept as the id of
  its chain object. The component never writes them. The component reads \<^verbatim>\<open>$account\<close> both
  with and without \<^verbatim>\<open>?.\<close> (lines 55, 74, 155 and 160), so the model lets the store be
  empty, and reading \<^verbatim>\<open>$account.address\<close> then raises.
\<close>

record Stores =
  selectedToken :: "Token option"
  network :: "chainId option"
  destNetwork :: "chainId option"
  account :: "Account option"
  bridgeService :: "Bridge option"
  enteredAmount :: int
  processingFee :: int
  recipientAddress :: "Address option"
  selectedNFTs :: "NFT list option"

text \<open>
  The tables and the pure function the component imports: \<^verbatim>\<open>routingContractsMap\<close>,
  \<^verbatim>\<open>chainConfig\<close> (only the explorer URL is read) and viem's \<^verbatim>\<open>getAddress\<close>, which is not
  code of the repository. The component tests its result for falsiness (lines 101 and 110),
  so the field may return no address; viem's function raises \<^verbatim>\<open>InvalidAddressError\<close> on
  anything that is not an address, a missing entry included, and the setting below follows it.
\<close>

record config =
  routingContractsMap :: "chainId \<Rightarrow> (chainId \<Rightarrow> RoutingContracts option) option"
  chainConfig :: "chainId \<Rightarrow> string option"
  getAddress :: "Address option \<Rightarrow> error + Address option"

text \<open>What the component does to the outside, in the order it does it.\<close>

datatype effect =
    CallIsBridgePaused
  | CallGetConnectedWallet chainId
  | CallGetCrossChainAddress "Token option" chainId chainId
  | CallApprove TokenType NFTApproveArgs
  | CallPendingAdd "Hash option" chainId
  | CallGetTokenApprovalStatus "Token option"
  | CallGetBridgeArgs "Token option" int CommonArgs "nat list"
  | CallBridge Bridge BridgeArgs "nat list"
  | InfoToast message message
  | SuccessToast message message
  | ConsoleError error
  | HandleBridgeError error
  | UnhandledRejection error

text \<open>
  A task is a suspended piece of the component with the local constants it has captured:
  one for every \<^verbatim>\<open>await\<close> of \<^verbatim>\<open>approve()\<close> (lines 98, 99, 102, 121, 136, 138) and of
  \<^verbatim>\<open>bridge()\<close> (lines 158, 170, 174), and one for each of the two \<^verbatim>\<open>.then\<close> callbacks
  (lines 91 and 66).
\<close>

datatype task =
    PauseCheck
  | AwaitWalletA TokenType
  | AwaitAddrA TokenType Wallet "Address option"
  | AwaitCrossA TokenType Wallet
  | AwaitApproveTx
  | AwaitPendingA
  | AwaitStatusA
  | AwaitWalletB
  | AwaitArgsB "nat list"
  | AwaitBridgeTx
  | Confirm Hash chainId chainId Address string

text \<open>How the environment settles the promise a task waits for.\<close>

datatype outcome =
    Rejected error
  | RBool bool
  | RWallet Wallet
  | RAddr "Address option"
  | RHash "Hash option"
  | RArgs BridgeArgs
  | RUnit

text \<open>
  The state: the component's variables (lines 41 to 49; \<open>bridging\<close> and \<open>approving\<close> are
  declared without a value, and \<^verbatim>\<open>undefined\<close> reads as false), the stores, the reading
  of \<^verbatim>\<open>Date.now()\<close>, the suspended tasks, the effects so far and the transaction history
  store. The view binds \<open>bridging\<close> and \<open>approving\<close> to the \<^verbatim>\<open>Actions\<close> component and exports
  \<open>bridgingStatus\<close> as a property; what other components write through these bindings is
  not code of this file and is not part of the model.
\<close>

record state =
  bridgingStatus :: Status
  bridgeTxHash :: "Hash option"
  approveTxHash :: "Hash option"
  bridging :: bool
  approving :: bool
  statusTitle :: message
  statusDescription :: message
  stores :: Stores
  clock :: nat
  tasks :: "task list"
  effects :: "effect list"
  txStore :: "Address \<Rightarrow> BridgeTransaction list"

section \<open>JavaScript truthiness\<close>

definition falsy_num :: "nat option \<Rightarrow> bool" where
  "falsy_num v = (case v of None \<Rightarrow> True | Some n \<Rightarrow> n = 0)"

definition falsy_str :: "string option \<Rightarrow> bool" where
  "falsy_str v = (case v of None \<Rightarrow> True | Some x \<Rightarrow> x = [])"

definition account_address :: "Stores \<Rightarrow> Address option" where
  "account_address st = (case account st of None \<Rightarrow> None | Some acc \<Rightarrow> address acc)"

section \<open>Bookkeeping\<close>

definition emit :: "effect \<Rightarrow> state \<Rightarrow> state" where
  "emit e s = s\<lparr>effects := effects s @ [e]\<rparr>"

definition suspend :: "task \<Rightarrow> state \<Rightarrow> state" where
  "suspend t s = s\<lparr>tasks := tasks s @ [t]\<rparr>"

definition remove_nth :: "nat \<Rightarrow> 'a list \<Rightarrow> 'a list" where
  "remove_nth i xs = take i xs @ drop (Suc i) xs"

text \<open>
  Modelled from the spec: \<^verbatim>\<open>bridgeTxService.addTxByAddress\<close> belongs to \<^verbatim>\<open>$libs/storage\<close>,
  which is not part of the source. The spec describes it as append-only persistence per
  address.
\<close>

definition addTxByAddress ::
  "Address \<Rightarrow> BridgeTransaction \<Rightarrow> (Address \<Rightarrow> BridgeTransaction list) \<Rightarrow> (Address \<Rightarrow> BridgeTransaction list)" where
  "addTxByAddress a tx st = st(a := st a @ [tx])"

text \<open>
  The result of running a piece of a \<^verbatim>\<open>try\<close> block: the error it raised, if any, and the
  state at that moment.
\<close>

type_synonym attempt = "error option \<times> state"

text \<open>The \<^verbatim>\<open>catch\<close> of \<^verbatim>\<open>approve()\<close> (lines 148 to 151) and of \<^verbatim>\<open>bridge()\<close> (179 to 183).\<close>

definition catch_approve :: "attempt \<Rightarrow> state" where
  "catch_approve r =
     (case fst r of
        None \<Rightarrow> snd r
      | Some err \<Rightarrow> emit (HandleBridgeError err) (emit (ConsoleError err) (snd r)))"

definition catch_bridge :: "attempt \<Rightarrow> state" where
  "catch_bridge r =
     (case fst r of
        None \<Rightarrow> snd r
      | Some err \<Rightarrow>
          emit (HandleBridgeError err) (emit (ConsoleError err) ((snd r)\<lparr>bridging := False\<rparr>)))"

section \<open>approve()\<close>

text \<open>
  Lines 90 to 97. The pause check is started first and its callback is attached with
  \<^verbatim>\<open>.then\<close>, outside the \<^verbatim>\<open>try\<close> block and without \<^verbatim>\<open>await\<close>; then the guard of line 96
  returns when the token, the network or the destination id is missing; otherwise the
  token type is fixed and the wallet is requested.
\<close>

definition approve :: "state \<Rightarrow> state" where
  "approve s0 =
     (let s = suspend PauseCheck (emit CallIsBridgePaused s0) in
      case selectedToken (stores s) of
        None \<Rightarrow> s
      | Some tok \<Rightarrow>
          (case network (stores s) of
             None \<Rightarrow> s
           | Some n \<Rightarrow>
               if falsy_num (destNetwork (stores s)) then s
               else suspend (AwaitWalletA (tk_type tok)) (emit (CallGetConnectedWallet n) s)))"

text \<open>
  Lines 113 to 121: the token ids, the spender taken from the routing table, and the call of
  the bridge's \<^verbatim>\<open>approve\<close>. A missing entry of the table is a \<open>TypeError\<close>.
\<close>

definition spender_of :: "TokenType \<Rightarrow> RoutingContracts \<Rightarrow> Address" where
  "spender_of ty r = (if ty = ERC1155 then erc1155VaultAddress r else erc721VaultAddress r)"

definition approve_submit :: "config \<Rightarrow> TokenType \<Rightarrow> Wallet \<Rightarrow> Address \<Rightarrow> state \<Rightarrow> attempt" where
  "approve_submit cfg ty w addr s =
     (let ids = map_option (map (\<lambda>nft. int (tokenId nft))) (selectedNFTs (stores s)) in
      case network (stores s) of
        None \<Rightarrow> (Some TypeError, s)
      | Some n \<Rightarrow>
          (case routingContractsMap cfg n of
             None \<Rightarrow> (Some TypeError, s)
           | Some row \<Rightarrow>
               (case destNetwork (stores s) of
                  None \<Rightarrow> (Some TypeError, s)
                | Some d \<Rightarrow>
                    (case row d of
                       None \<Rightarrow> (Some TypeError, s)
                     | Some r \<Rightarrow>
                         (None,
                          suspend AwaitApproveTx
                            (emit (CallApprove ty
                                     \<lparr>tokenIds = ids, tokenAddress = addr,
                                      spenderAddress = spender_of ty r, wallet = w\<rparr>) s))))))"

text \<open>Lines 110 to 112, then the submission.\<close>

definition approve_with_address ::
  "config \<Rightarrow> TokenType \<Rightarrow> Wallet \<Rightarrow> Address option \<Rightarrow> state \<Rightarrow> attempt" where
  "approve_with_address cfg ty w a s =
     (case a of
        None \<Rightarrow> (Some (Error ''token address not found''), s)
      | Some addr \<Rightarrow>
          if addr = [] then (Some (Error ''token address not found''), s)
          else approve_submit cfg ty w addr s)"

text \<open>Line 99, after the wallet has arrived.\<close>

definition approve_resolve_address :: "config \<Rightarrow> TokenType \<Rightarrow> Wallet \<Rightarrow> state \<Rightarrow> attempt" where
  "approve_resolve_address cfg ty w s =
     (case selectedToken (stores s) of
        None \<Rightarrow> (Some TypeError, s)
      | Some tok \<Rightarrow>
          (case network (stores s) of
             None \<Rightarrow> (Some TypeError, s)
           | Some n \<Rightarrow>
               (case getAddress cfg (map_of (tk_addresses tok) n) of
                  Inl err \<Rightarrow> (Some err, s)
                | Inr a \<Rightarrow> (None, suspend (AwaitAddrA ty w a) s))))"

text \<open>Lines 101 to 106: without an address the cross-chain resolver is asked.\<close>

definition approve_cross_chain ::
  "config \<Rightarrow> TokenType \<Rightarrow> Wallet \<Rightarrow> Address option \<Rightarrow> state \<Rightarrow> attempt" where
  "approve_cross_chain cfg ty w a s =
     (if falsy_str a then
        (case network (stores s) of
           None \<Rightarrow> (Some TypeError, s)
         | Some n \<Rightarrow>
             (case destNetwork (stores s) of
                None \<Rightarrow> (Some TypeError, s)
              | Some d \<Rightarrow>
                  (None,
                   suspend (AwaitCrossA ty w)
                     (emit (CallGetCrossChainAddress (selectedToken (stores s)) n d) s))))
      else approve_with_address cfg ty w a s)"

text \<open>Lines 107 and 108, with the answer of the resolver.\<close>

definition approve_cross_chain_result ::
  "config \<Rightarrow> TokenType \<Rightarrow> Wallet \<Rightarrow> Address option \<Rightarrow> state \<Rightarrow> attempt" where
  "approve_cross_chain_result cfg ty w c s =
     (if falsy_str c then (Some (Error ''cross chain address not found''), s)
      else approve_with_address cfg ty w c s)"

text \<open>Lines 121 to 136, with the hash of the approval.\<close>

definition approve_submitted :: "config \<Rightarrow> Hash option \<Rightarrow> state \<Rightarrow> attempt" where
  "approve_submitted cfg h s0 =
     (let s = s0\<lparr>approveTxHash := h\<rparr> in
      case network (stores s) of
        None \<Rightarrow> (Some TypeError, s)
      | Some n \<Rightarrow>
          (case chainConfig cfg n of
             None \<Rightarrow> (Some TypeError, s)
           | Some explorer \<Rightarrow>
               (case h of
                  None \<Rightarrow> (None, suspend AwaitPendingA (emit (CallPendingAdd h n) s))
                | Some x \<Rightarrow>
                    if x = [] then (None, suspend AwaitPendingA (emit (CallPendingAdd h n) s))
                    else
                      (case selectedToken (stores s) of
                         None \<Rightarrow> (Some TypeError, s)
                       | Some tok \<Rightarrow>
                           (None,
                            suspend AwaitPendingA
                              (emit (CallPendingAdd h n)
                                 (emit (InfoToast (T ''bridge.actions.approve.tx.title'' [])
                                          (T ''bridge.actions.approve.tx.message''
                                             [(''token'', tk_symbol tok),
                                              (''url'', explorer @ ''/tx/'' @ x)])) s)))))))"

text \<open>Line 138, once the approval is confirmed.\<close>

definition approve_confirmed :: "state \<Rightarrow> attempt" where
  "approve_confirmed s =
     (None, suspend AwaitStatusA (emit (CallGetTokenApprovalStatus (selectedToken (stores s))) s))"

text \<open>Lines 140 to 147.\<close>

definition approve_refreshed :: "state \<Rightarrow> attempt" where
  "approve_refreshed s =
     (case selectedToken (stores s) of
        None \<Rightarrow> (Some TypeError, s)
      | Some tok \<Rightarrow>
          (None,
           emit (SuccessToast (T ''bridge.actions.approve.success.title'' [])
                   (T ''bridge.actions.approve.success.message'' [(''token'', tk_symbol tok)])) s))"

text \<open>
  The body of the \<^verbatim>\<open>try\<close> block of \<^verbatim>\<open>approve()\<close> from each of its suspension points. A
  rejected promise raises its error at the \<^verbatim>\<open>await\<close>. \<open>None\<close>: the task is not one of
  \<^verbatim>\<open>approve()\<close>, or the outcome is not one its promise can have.
\<close>

fun approve_try :: "config \<Rightarrow> task \<Rightarrow> outcome \<Rightarrow> state \<Rightarrow> attempt option" where
  "approve_try cfg (AwaitWalletA ty) (RWallet w) s = Some (approve_resolve_address cfg ty w s)"
| "approve_try cfg (AwaitWalletA ty) (Rejected err) s = Some (Some err, s)"
| "approve_try cfg (AwaitAddrA ty w a) RUnit s = Some (approve_cross_chain cfg ty w a s)"
| "approve_try cfg (AwaitCrossA ty w) (RAddr c) s = Some (approve_cross_chain_result cfg ty w c s)"
| "approve_try cfg (AwaitCrossA ty w) (Rejected err) s = Some (Some err, s)"
| "approve_try cfg AwaitApproveTx (RHash h) s = Some (approve_submitted cfg h s)"
| "approve_try cfg AwaitApproveTx (Rejected err) s = Some (Some err, s)"
| "approve_try cfg AwaitPendingA RUnit s = Some (approve_confirmed s)"
| "approve_try cfg AwaitPendingA (Rejected err) s = Some (Some err, s)"
| "approve_try cfg AwaitStatusA RUnit s = Some (approve_refreshed s)"
| "approve_try cfg AwaitStatusA (Rejected err) s = Some (Some err, s)"
| "approve_try cfg _ _ s = None"

section \<open>bridge() and the confirmation handler\<close>

text \<open>Lines 155 to 158: the guard, the flag, and the request for the wallet.\<close>

definition bridge :: "state \<Rightarrow> state" where
  "bridge s =
     (if bridgeService (stores s) = None \<or> selectedToken (stores s) = None
         \<or> network (stores s) = None
         \<or> falsy_num (destNetwork (stores s)) \<or> falsy_str (account_address (stores s))
      then s
      else
        (case network (stores s) of
           None \<Rightarrow> s
         | Some n \<Rightarrow> suspend AwaitWalletB (emit (CallGetConnectedWallet n) (s\<lparr>bridging := True\<rparr>))))"

text \<open>
  Lines 159 to 170: the common arguments (the recipient, or the sender when none is set),
  the token ids with the guard of line 168, and the call of the argument builder.
\<close>

definition bridge_build_args :: "Wallet \<Rightarrow> state \<Rightarrow> attempt" where
  "bridge_build_args w s =
     (case (if falsy_str (recipientAddress (stores s))
            then (case account (stores s) of None \<Rightarrow> Inl TypeError | Some acc \<Rightarrow> Inr (address acc))
            else Inr (recipientAddress (stores s))) of
        Inl err \<Rightarrow> (Some err, s)
      | Inr recipient \<Rightarrow>
          (case network (stores s) of
             None \<Rightarrow> (Some TypeError, s)
           | Some n \<Rightarrow>
               (case selectedNFTs (stores s) of
                  None \<Rightarrow> (Some (Error ''tokenIds not found''), s)
                | Some nfts \<Rightarrow>
                    (None,
                     suspend (AwaitArgsB (map tokenId nfts))
                       (emit (CallGetBridgeArgs (selectedToken (stores s)) (enteredAmount (stores s))
                                \<lparr>to_addr = recipient, ca_wallet = w, ca_srcChainId = n,
                                 ca_destChainId = destNetwork (stores s),
                                 fee = processingFee (stores s)\<rparr>
                                (map tokenId nfts)) s)))))"

text \<open>Lines 172 to 174: the token ids are merged in and the bridge service is called.\<close>

definition bridge_submit :: "nat list \<Rightarrow> BridgeArgs \<Rightarrow> state \<Rightarrow> attempt" where
  "bridge_submit ids b s =
     (case bridgeService (stores s) of
        None \<Rightarrow> (Some TypeError, s)
      | Some svc \<Rightarrow> (None, suspend AwaitBridgeTx (emit (CallBridge svc b ids) s)))"

text \<open>
  Lines 51 to 66, \<^verbatim>\<open>handleBridgeTxHash\<close> up to the registration of its callback. It runs
  inside the \<^verbatim>\<open>try\<close> block of \<^verbatim>\<open>bridge()\<close>, so a chain missing from \<^verbatim>\<open>chainConfig\<close> raises
  there.
\<close>

definition handleBridgeTxHash :: "config \<Rightarrow> Hash \<Rightarrow> state \<Rightarrow> attempt" where
  "handleBridgeTxHash cfg txHash s =
     (if falsy_num (network (stores s)) \<or> falsy_num (destNetwork (stores s))
         \<or> falsy_str (account_address (stores s))
      then (None, s)
      else
        (case (network (stores s), destNetwork (stores s), account_address (stores s)) of
           (Some currentChain, Some destinationChain, Some userAccount) \<Rightarrow>
             (case chainConfig cfg currentChain of
                None \<Rightarrow> (Some TypeError, s)
              | Some explorer \<Rightarrow>
                  (None,
                   suspend (Confirm txHash currentChain destinationChain userAccount explorer)
                     (emit (CallPendingAdd (Some txHash) currentChain)
                        (s\<lparr>statusTitle := T ''bridge.actions.bridge.tx.title'' [],
                           statusDescription :=
                             T ''bridge.actions.bridge.tx.message''
                               [(''url'', explorer @ ''/tx/'' @ txHash)]\<rparr>))))
         | _ \<Rightarrow> (None, s)))"

text \<open>Lines 174 to 178, with the hash of the bridge transaction.\<close>

definition bridge_submitted :: "config \<Rightarrow> Hash option \<Rightarrow> state \<Rightarrow> attempt" where
  "bridge_submitted cfg h s0 =
     (let s = s0\<lparr>bridgeTxHash := h\<rparr> in
      case h of
        None \<Rightarrow> (None, s)
      | Some txHash \<Rightarrow> if txHash = [] then (None, s) else handleBridgeTxHash cfg txHash s)"

text \<open>
  Lines 67 to 86, the callback of the tracker's promise. It reads the stores and the clock
  when it runs. Nothing catches what it raises: \<^verbatim>\<open>$account.address\<close> on a missing account
  ends it after the status has been set.
\<close>

definition on_confirmed :: "Hash \<Rightarrow> chainId \<Rightarrow> chainId \<Rightarrow> Address \<Rightarrow> string \<Rightarrow> state \<Rightarrow> state" where
  "on_confirmed txHash currentChain destinationChain userAccount explorer s0 =
     (let s = s0\<lparr>bridgingStatus := StatusDone,
                 statusTitle := T ''bridge.actions.bridge.success.title'' [],
                 statusDescription :=
                   T ''bridge.nft.step.confirm.bridge.success.message''
                     [(''url'', explorer @ ''/tx/'' @ txHash)]\<rparr> in
      case account (stores s) of
        None \<Rightarrow> emit (UnhandledRejection TypeError) s
      | Some acc \<Rightarrow>
          s\<lparr>bridging := False,
            txStore :=
              addTxByAddress userAccount
                \<lparr>hash = txHash,
                 from_addr = address acc,
                 amount = enteredAmount (stores s),
                 symbol = map_option tk_symbol (selectedToken (stores s)),
                 decimals = map_option tk_decimals (selectedToken (stores s)),
                 srcChainId = int currentChain,
                 destChainId = int destinationChain,
                 tokenType = map_option tk_type (selectedToken (stores s)),
                 status = NEW,
                 timestamp = clock s\<rparr>
                (txStore s)\<rparr>)"

text \<open>The body of the \<^verbatim>\<open>try\<close> block of \<^verbatim>\<open>bridge()\<close> from each of its suspension points.\<close>

fun bridge_try :: "config \<Rightarrow> task \<Rightarrow> outcome \<Rightarrow> state \<Rightarrow> attempt option" where
  "bridge_try cfg AwaitWalletB (RWallet w) s = Some (bridge_build_args w s)"
| "bridge_try cfg AwaitWalletB (Rejected err) s = Some (Some err, s)"
| "bridge_try cfg (AwaitArgsB ids) (RArgs b) s = Some (bridge_submit ids b s)"
| "bridge_try cfg (AwaitArgsB ids) (Rejected err) s = Some (Some err, s)"
| "bridge_try cfg AwaitBridgeTx (RHash h) s = Some (bridge_submitted cfg h s)"
| "bridge_try cfg AwaitBridgeTx (Rejected err) s = Some (Some err, s)"
| "bridge_try cfg _ _ s = None"

text \<open>
  The two callbacks attached with \<^verbatim>\<open>.then\<close> (lines 91 to 93 and 66 to 87). They run outside
  every \<^verbatim>\<open>try\<close> block: what they raise, and the rejection of their promise, is an unhandled
  rejection.
\<close>

fun callback :: "task \<Rightarrow> outcome \<Rightarrow> state \<Rightarrow> state option" where
  "callback PauseCheck (RBool paused) s =
     Some (if paused then emit (UnhandledRejection (BridgePausedError ''Bridge is paused'')) s else s)"
| "callback PauseCheck (Rejected err) s = Some (emit (UnhandledRejection err) s)"
| "callback (Confirm h c d u x) RUnit s = Some (on_confirmed h c d u x s)"
| "callback (Confirm h c d u x) (Rejected err) s = Some (emit (UnhandledRejection err) s)"
| "callback _ _ s = None"

section \<open>Steps and runs\<close>

definition resume :: "config \<Rightarrow> task \<Rightarrow> outcome \<Rightarrow> state \<Rightarrow> state option" where
  "resume cfg t out s =
     (case approve_try cfg t out s of
        Some r \<Rightarrow> Some (catch_approve r)
      | None \<Rightarrow>
          (case bridge_try cfg t out s of
             Some r \<Rightarrow> Some (catch_bridge r)
           | None \<Rightarrow> callback t out s))"

text \<open>
  What can happen next: the view calls \<^verbatim>\<open>approve()\<close> or \<^verbatim>\<open>bridge()\<close>, the promise of the
  task at some position settles, or the world changes the stores or the clock.
\<close>

datatype action =
    InvokeApprove
  | InvokeBridge
  | Resume nat outcome
  | SetStores Stores
  | SetClock nat

fun step :: "config \<Rightarrow> action \<Rightarrow> state \<Rightarrow> state option" where
  "step cfg InvokeApprove s = Some (approve s)"
| "step cfg InvokeBridge s = Some (bridge s)"
| "step cfg (Resume i out) s =
     (if i < length (tasks s)
      then resume cfg (tasks s ! i) out (s\<lparr>tasks := remove_nth i (tasks s)\<rparr>)
      else None)"
| "step cfg (SetStores st) s = Some (s\<lparr>stores := st\<rparr>)"
| "step cfg (SetClock t) s = Some (s\<lparr>clock := t\<rparr>)"

fun run :: "config \<Rightarrow> action list \<Rightarrow> state \<Rightarrow> state option" where
  "run cfg [] s = Some s"
| "run cfg (a # as) s = (case step cfg a s of None \<Rightarrow> None | Some s' \<Rightarrow> run cfg as s')"

text \<open>The states a run passes through; it stops at an action that cannot happen.\<close>

fun states :: "config \<Rightarrow> action list \<Rightarrow> state \<Rightarrow> state list" where
  "states cfg [] s = [s]"
| "states cfg (a # as) s = s # (case step cfg a s of None \<Rightarrow> [] | Some s' \<Rightarrow> states cfg as s')"

text \<open>How often a sequence of statuses goes from pending to done.\<close>

fun done_transitions :: "Status list \<Rightarrow> nat" where
  "done_transitions (a # b # xs) =
     (if a = StatusPending \<and> b = StatusDone then 1 else 0) + done_transitions (b # xs)"
| "done_transitions xs = 0"

text \<open>The tasks of \<^verbatim>\<open>bridge()\<close> and of its confirmation handler.\<close>

fun bridge_task :: "task \<Rightarrow> bool" where
  "bridge_task AwaitWalletB = True"
| "bridge_task (AwaitArgsB ids) = True"
| "bridge_task AwaitBridgeTx = True"
| "bridge_task (Confirm h c d u x) = True"
| "bridge_task t = False"

section \<open>A concrete setting\<close>

text \<open>
  The component as mounted (line 41 and lines 48, 49), over given stores and a given clock,
  with nothing suspended and an empty history.
\<close>

definition initial :: "Stores \<Rightarrow> nat \<Rightarrow> state" where
  "initial st now =
     \<lparr>bridgingStatus = StatusPending, bridgeTxHash = None, approveTxHash = None,
      bridging = False, approving = False,
      statusTitle = Literal ''Success!'', statusDescription = Literal [],
      stores = st, clock = now, tasks = [], effects = [], txStore = (\<lambda>a. [])\<rparr>"

text \<open>
  The scenario of the spec: an ERC721 token with an address on chain 1, one NFT with id 42,
  source chain 1, destination chain 10.
\<close>

definition example_vaults :: RoutingContracts where
  "example_vaults = \<lparr>erc721VaultAddress = ''0xVault721'', erc1155VaultAddress = ''0xVault1155''\<rparr>"

definition example_routes :: "chainId \<Rightarrow> RoutingContracts option" where
  "example_routes dst = (if dst = 10 then Some example_vaults else None)"

text \<open>
  \<^verbatim>\<open>getAddress\<close> as viem has it: a string that is not an address (\<^verbatim>\<open>0x\<close> and forty
  hexadecimal digits) and a missing entry raise \<^verbatim>\<open>InvalidAddressError\<close>; an address is
  returned in checksum form. The checksum changes the case of letters only, and the model
  does not compute it: the addresses that pass through it here consist of digits.
\<close>

definition is_hex_digit :: "char \<Rightarrow> bool" where
  "is_hex_digit c = (c \<in> set ''0123456789abcdefABCDEF'')"

definition is_address :: "string \<Rightarrow> bool" where
  "is_address a = (length a = 42 \<and> take 2 a = ''0x'' \<and> list_all is_hex_digit (drop 2 a))"

definition viem_getAddress :: "Address option \<Rightarrow> error + Address option" where
  "viem_getAddress a =
     (case a of
        None \<Rightarrow> Inl (Upstream ''InvalidAddressError'')
      | Some x \<Rightarrow> if is_address x then Inr (Some x) else Inl (Upstream ''InvalidAddressError''))"

definition example_config :: config where
  "example_config =
     \<lparr>routingContractsMap = (\<lambda>src. if src = 1 then Some example_routes else None),
      chainConfig = (\<lambda>c. if c = 1 then Some ''https://explorer.example'' else None),
      getAddress = viem_getAddress\<rparr>"

text \<open>
  The same setting with a \<^verbatim>\<open>getAddress\<close> that hands a missing entry through, which is what
  lines 101 to 109 provide for and what viem's function never does.
\<close>

definition example_lenient_config :: config where
  "example_lenient_config = example_config\<lparr>getAddress := (\<lambda>a. Inr a)\<rparr>"

definition example_token_address :: Address where
  "example_token_address = ''0x1111111111111111111111111111111111111111''"

definition example_token :: Token where
  "example_token =
     \<lparr>tk_type = ERC721, tk_symbol = ''NFT'', tk_decimals = 0,
      tk_addresses = [(1, example_token_address)]\<rparr>"

definition example_stores :: Stores where
  "example_stores =
     \<lparr>selectedToken = Some example_token, network = Some 1, destNetwork = Some 10,
      account = Some \<lparr>address = Some ''0xUser''\<rparr>, bridgeService = Some (Bridge 0),
      enteredAmount = 1, processingFee = 0, recipientAddress = None,
      selectedNFTs = Some [\<lparr>tokenId = 42\<rparr>]\<rparr>"

text \<open>Reading a run that may have stopped.\<close>

definition records_of :: "Address \<Rightarrow> state option \<Rightarrow> BridgeTransaction list" where
  "records_of a r = (case r of None \<Rightarrow> [] | Some s \<Rightarrow> txStore s a)"

text \<open>
  The states of the scenario along one call of \<^verbatim>\<open>bridge()\<close>: waiting for the wallet, waiting
  for the hash, waiting for the confirmation, and confirmed at clock 200.
\<close>

definition example_awaiting_wallet :: state where
  "example_awaiting_wallet =
     (initial example_stores 100)
       \<lparr>bridging := True, tasks := [AwaitWalletB], effects := [CallGetConnectedWallet 1]\<rparr>"

definition example_awaiting_hash :: state where
  "example_awaiting_hash =
     (initial example_stores 100)
       \<lparr>bridging := True, tasks := [AwaitBridgeTx],
        effects :=
          [CallGetConnectedWallet 1,
           CallGetBridgeArgs (Some example_token) 1
             \<lparr>to_addr = Some ''0xUser'', ca_wallet = Wallet 0, ca_srcChainId = 1,
              ca_destChainId = Some 10, fee = 0\<rparr> [42],
           CallBridge (Bridge 0) (BridgeArgs 0) [42]]\<rparr>"

definition example_awaiting_confirmation :: state where
  "example_awaiting_confirmation =
     example_awaiting_hash
       \<lparr>bridgeTxHash := Some ''0xabc'',
        statusTitle := T ''bridge.actions.bridge.tx.title'' [],
        statusDescription :=
          T ''bridge.actions.bridge.tx.message'' [(''url'', ''https://explorer.example/tx/0xabc'')],
        tasks := [Confirm ''0xabc'' 1 10 ''0xUser'' ''https://explorer.example''],
        effects := effects example_awaiting_hash @ [CallPendingAdd (Some ''0xabc'') 1]\<rparr>"

definition example_record :: BridgeTransaction where
  "example_record =
     \<lparr>hash = ''0xabc'', from_addr = Some ''0xUser'', amount = 1, symbol = Some ''NFT'',
      decimals = Some 0, srcChainId = 1, destChainId = 10, tokenType = Some ERC721,
      status = NEW, timestamp = 200\<rparr>"

definition example_confirmed :: state where
  "example_confirmed =
     example_awaiting_confirmation
       \<lparr>bridgingStatus := StatusDone,
        statusTitle := T ''bridge.actions.bridge.success.title'' [],
        statusDescription :=
          T ''bridge.nft.step.confirm.bridge.success.message''
            [(''url'', ''https://explorer.example/tx/0xabc'')],
        bridging := False, clock := 200, tasks := [],
        txStore := (\<lambda>a. [])(''0xUser'' := [example_record])\<rparr>"

text \<open>
  The same call when the wallet is disconnected while the bridge transaction is being
  submitted: the handler finds no sender address.
\<close>

definition example_disconnected :: Stores where
  "example_disconnected = example_stores\<lparr>account := Some \<lparr>address = None\<rparr>\<rparr>"

definition example_aborted :: state where
  "example_aborted =
     example_awaiting_hash
       \<lparr>stores := example_disconnected, tasks := [], bridgeTxHash := Some ''0xabc''\<rparr>"

text \<open>
  A call of \<^verbatim>\<open>approve()\<close> in the scenario, after the wallet has arrived; and a token of the
  multi-unit standard that has no address on chain 1.
\<close>

definition example_approve_args :: NFTApproveArgs where
  "example_approve_args =
     \<lparr>tokenIds = Some [42], tokenAddress = example_token_address,
      spenderAddress = ''0xVault721'', wallet = Wallet 0\<rparr>"

definition example_approve_awaiting_address :: state where
  "example_approve_awaiting_address =
     (initial example_stores 100)
       \<lparr>tasks := [PauseCheck, AwaitAddrA ERC721 (Wallet 0) (Some example_token_address)],
        effects := [CallIsBridgePaused, CallGetConnectedWallet 1]\<rparr>"

definition example_approve_submitted :: state where
  "example_approve_submitted =
     (initial example_stores 100)
       \<lparr>tasks := [PauseCheck, AwaitApproveTx],
        effects := [CallIsBridgePaused, CallGetConnectedWallet 1,
                    CallApprove ERC721 example_approve_args]\<rparr>"

definition example_foreign_token :: Token where
  "example_foreign_token =
     \<lparr>tk_type = ERC1155, tk_symbol = ''MULTI'', tk_decimals = 0, tk_addresses = [(10, ''0xCanonical'')]\<rparr>"

definition example_foreign_stores :: Stores where
  "example_foreign_stores = example_stores\<lparr>selectedToken := Some example_foreign_token\<rparr>"

section \<open>Unfolding\<close>

text \<open>
  The definitions of the model, collected for unfolding.
\<close>

lemmas approve_defs =
  approve_resolve_address_def approve_cross_chain_def approve_cross_chain_result_def
  approve_with_address_def approve_submit_def approve_submitted_def approve_confirmed_def
  approve_refreshed_def

lemmas bridge_defs =
  bridge_build_args_def bridge_submit_def bridge_submitted_def handleBridgeTxHash_def

lemmas model_defs =
  approve_def bridge_def approve_defs bridge_defs resume_def catch_approve_def catch_bridge_def
  on_confirmed_def emit_def suspend_def remove_nth_def addTxByAddress_def
  falsy_num_def falsy_str_def account_address_def spender_of_def Let_def

lemmas example_defs =
  initial_def example_config_def example_lenient_config_def viem_getAddress_def is_address_def
  is_hex_digit_def example_routes_def example_vaults_def example_stores_def
  example_token_def example_token_address_def records_of_def

lemmas example_state_defs =
  example_awaiting_wallet_def example_awaiting_hash_def
  example_awaiting_confirmation_def example_confirmed_def example_record_def
  example_disconnected_def example_aborted_def example_approve_args_def
  example_approve_awaiting_address_def example_approve_submitted_def
  example_foreign_token_def example_foreign_stores_def

section \<open>What one step can change\<close>

text \<open>
  The pieces of \<^verbatim>\<open>approve()\<close> and \<^verbatim>\<open>bridge()\<close> leave the status, the flags and the store
  alone; only the callback of the confirmation writes the status and the store.
\<close>

lemma approve_try_frame:
  assumes "approve_try cfg t out s = Some r"
  shows "bridgingStatus (snd r) = bridgingStatus s \<and> bridging (snd r) = bridging s
    \<and> txStore (snd r) = txStore s \<and> stores (snd r) = stores s \<and> clock (snd r) = clock s
    \<and> bridgeTxHash (snd r) = bridgeTxHash s \<and> approving (snd r) = approving s
    \<and> statusTitle (snd r) = statusTitle s \<and> statusDescription (snd r) = statusDescription s"
  using assms
  by (elim approve_try.elims)
     (auto simp: approve_defs emit_def suspend_def Let_def split: option.splits sum.splits if_splits)

lemma bridge_try_frame:
  assumes "bridge_try cfg t out s = Some r"
  shows "bridgingStatus (snd r) = bridgingStatus s \<and> bridging (snd r) = bridging s
    \<and> txStore (snd r) = txStore s \<and> stores (snd r) = stores s \<and> clock (snd r) = clock s
    \<and> approveTxHash (snd r) = approveTxHash s \<and> approving (snd r) = approving s"
  using assms
  by (elim bridge_try.elims)
     (auto simp: bridge_defs emit_def suspend_def Let_def split: option.splits sum.splits if_splits)

lemma bridge_try_raised:
  assumes "bridge_try cfg t out s = Some (Some err, s1)"
  shows "tasks s1 = tasks s \<and> effects s1 = effects s \<and> txStore s1 = txStore s
    \<and> bridgingStatus s1 = bridgingStatus s"
  using assms
  by (elim bridge_try.elims)
     (auto simp: bridge_defs emit_def suspend_def Let_def split: option.splits sum.splits if_splits)

lemma bridge_try_not_approve:
  "bridge_try cfg t out s = Some r \<Longrightarrow> approve_try cfg' t out' s' = None"
  by (elim bridge_try.elims) auto

lemma catch_approve_frame:
  "bridgingStatus (catch_approve r) = bridgingStatus (snd r) \<and> bridging (catch_approve r) = bridging (snd r)
   \<and> txStore (catch_approve r) = txStore (snd r) \<and> tasks (catch_approve r) = tasks (snd r)"
  by (simp add: catch_approve_def emit_def split: option.splits)

lemma catch_bridge_frame:
  "bridgingStatus (catch_bridge r) = bridgingStatus (snd r) \<and> txStore (catch_bridge r) = txStore (snd r)
   \<and> tasks (catch_bridge r) = tasks (snd r)"
  by (simp add: catch_bridge_def emit_def split: option.splits)

lemma resume_cases:
  assumes "resume cfg t out s = Some s'"
  shows "(\<exists>r. approve_try cfg t out s = Some r \<and> s' = catch_approve r)
       \<or> (\<exists>r. bridge_try cfg t out s = Some r \<and> s' = catch_bridge r)
       \<or> (approve_try cfg t out s = None \<and> bridge_try cfg t out s = None \<and> callback t out s = Some s')"
  using assms by (auto simp: resume_def split: option.splits)

lemma callback_cases:
  assumes "callback t out s = Some s'"
  shows "(bridgingStatus s' = bridgingStatus s \<and> bridging s' = bridging s \<and> txStore s' = txStore s
           \<and> tasks s' = tasks s \<and> (t = PauseCheck \<or> (\<exists>h c d u x e. t = Confirm h c d u x \<and> out = Rejected e)))
       \<or> (\<exists>h c d u x. t = Confirm h c d u x \<and> out = RUnit \<and> s' = on_confirmed h c d u x s)"
  using assms by (elim callback.elims) (auto simp: emit_def split: if_splits)

lemma on_confirmed_account:
  assumes "account (stores s) = Some acc"
  shows "on_confirmed h c d u x s =
     s\<lparr>bridgingStatus := StatusDone,
       statusTitle := T ''bridge.actions.bridge.success.title'' [],
       statusDescription :=
         T ''bridge.nft.step.confirm.bridge.success.message'' [(''url'', x @ ''/tx/'' @ h)],
       bridging := False,
       txStore := (txStore s)(u := txStore s u @
         [\<lparr>hash = h, from_addr = address acc, amount = enteredAmount (stores s),
           symbol = map_option tk_symbol (selectedToken (stores s)),
           decimals = map_option tk_decimals (selectedToken (stores s)),
           srcChainId = int c, destChainId = int d,
           tokenType = map_option tk_type (selectedToken (stores s)),
           status = NEW, timestamp = clock s\<rparr>])\<rparr>"
  using assms by (simp add: on_confirmed_def Let_def addTxByAddress_def)

lemma on_confirmed_no_account:
  assumes "account (stores s) = None"
  shows "txStore (on_confirmed h c d u x s) = txStore s"
  using assms by (simp add: on_confirmed_def Let_def emit_def)

lemma on_confirmed_store:
  "txStore (on_confirmed h c d u x s) = txStore s
   \<or> (\<exists>tx. hash tx = h \<and> txStore (on_confirmed h c d u x s) = (txStore s)(u := txStore s u @ [tx]))"
proof (cases "account (stores s)")
  case None
  then show ?thesis by (simp add: on_confirmed_no_account)
next
  case (Some acc)
  show ?thesis
    by (rule disjI2, subst on_confirmed_account[OF Some], rule exI, rule conjI[rotated], simp, simp)
qed

lemma on_confirmed_frame:
  "bridgingStatus (on_confirmed h c d u x s) = StatusDone \<and> tasks (on_confirmed h c d u x s) = tasks s"
  by (auto simp: on_confirmed_def Let_def emit_def split: option.splits)

lemma on_confirmed_appends:
  assumes "account (stores s) = Some acc"
  shows "\<exists>tx. hash tx = h
     \<and> txStore (on_confirmed h c d u x s) = (txStore s)(u := txStore s u @ [tx])"
  by (subst on_confirmed_account[OF assms], rule exI, rule conjI[rotated], simp, simp)

lemma invoke_frame:
  "bridgingStatus (approve s) = bridgingStatus s \<and> txStore (approve s) = txStore s \<and> bridging (approve s) = bridging s
   \<and> bridgingStatus (bridge s) = bridgingStatus s \<and> txStore (bridge s) = txStore s"
  by (auto simp: approve_def bridge_def emit_def suspend_def Let_def split: option.splits)

lemma step_cases:
  assumes "step cfg a s = Some s'"
  shows "(bridgingStatus s' = bridgingStatus s \<and> txStore s' = txStore s)
       \<or> (\<exists>i h c d u x. a = Resume i RUnit \<and> i < length (tasks s) \<and> tasks s ! i = Confirm h c d u x
             \<and> s' = on_confirmed h c d u x (s\<lparr>tasks := remove_nth i (tasks s)\<rparr>))"
proof (cases a)
  case InvokeApprove
  with assms show ?thesis by (auto simp: invoke_frame)
next
  case InvokeBridge
  with assms show ?thesis by (auto simp: invoke_frame)
next
  case (Resume i out)
  with assms have i: "i < length (tasks s)"
    and r: "resume cfg (tasks s ! i) out (s\<lparr>tasks := remove_nth i (tasks s)\<rparr>) = Some s'"
    by (auto split: if_splits)
  let ?s0 = "s\<lparr>tasks := remove_nth i (tasks s)\<rparr>"
  from resume_cases[OF r] show ?thesis
  proof (elim disjE exE conjE)
    fix r assume "approve_try cfg (tasks s ! i) out ?s0 = Some r" "s' = catch_approve r"
    then show ?thesis using approve_try_frame[of cfg "tasks s ! i" out ?s0 r]
      by (simp add: catch_approve_frame)
  next
    fix r assume "bridge_try cfg (tasks s ! i) out ?s0 = Some r" "s' = catch_bridge r"
    then show ?thesis using bridge_try_frame[of cfg "tasks s ! i" out ?s0 r]
      by (simp add: catch_bridge_frame)
  next
    assume "callback (tasks s ! i) out ?s0 = Some s'"
    from callback_cases[OF this] show ?thesis using i Resume by auto
  qed
next
  case (SetStores st)
  with assms show ?thesis by auto
next
  case (SetClock n)
  with assms show ?thesis by auto
qed

lemma step_register_confirm:
  assumes "i < length (tasks s)" and "tasks s ! i = AwaitBridgeTx" and "h \<noteq> []"
    and "network (stores s) = Some c" and "c \<noteq> 0"
    and "destNetwork (stores s) = Some d" and "d \<noteq> 0"
    and "account_address (stores s) = Some u" and "u \<noteq> []"
    and "chainConfig cfg c = Some x"
  shows "step cfg (Resume i (RHash (Some h))) s =
     Some (s\<lparr>tasks := remove_nth i (tasks s) @ [Confirm h c d u x],
             bridgeTxHash := Some h,
             statusTitle := T ''bridge.actions.bridge.tx.title'' [],
             statusDescription := T ''bridge.actions.bridge.tx.message'' [(''url'', x @ ''/tx/'' @ h)],
             effects := effects s @ [CallPendingAdd (Some h) c]\<rparr>)"
  using assms
  by (simp add: resume_def bridge_defs catch_bridge_def emit_def suspend_def falsy_num_def
      falsy_str_def Let_def)

lemma step_confirm:
  assumes "j < length (tasks s)" and "tasks s ! j = Confirm h c d u x"
  shows "step cfg (Resume j RUnit) s =
     Some (on_confirmed h c d u x (s\<lparr>tasks := remove_nth j (tasks s)\<rparr>))"
  using assms by (simp add: resume_def)

lemma remove_nth_last [simp]: "remove_nth (length xs) (xs @ [t]) = xs"
  by (simp add: remove_nth_def)

lemma nth_append_Suc_length [simp]: "(xs @ [a, b]) ! Suc (length xs) = b"
  by (simp add: nth_append)

lemma remove_nth_Suc_last [simp]: "remove_nth (Suc (length xs)) (xs @ [a, b]) = xs @ [a]"
  by (simp add: remove_nth_def)

lemma bridge_run_isolated:
  assumes "bridgeService (stores s) = Some svc" and "selectedToken (stores s) = Some tok"
    and "network (stores s) = Some c" and "c \<noteq> 0"
    and "destNetwork (stores s) = Some d" and "d \<noteq> 0"
    and "account (stores s) = Some acc" and "address acc = Some u" and "u \<noteq> []"
    and "selectedNFTs (stores s) = Some nfts" and "chainConfig cfg c = Some x" and "h \<noteq> []"
  shows "\<exists>s3. run cfg [InvokeBridge, Resume (length (tasks s)) (RWallet w),
                      Resume (length (tasks s)) (RArgs b),
                      Resume (length (tasks s)) (RHash (Some h))] s = Some s3
            \<and> txStore s3 = txStore s \<and> tasks s3 = tasks s @ [Confirm h c d u x]
            \<and> stores s3 = stores s \<and> bridging s3 = True \<and> bridgingStatus s3 = bridgingStatus s"
  using assms
  by (simp add: bridge_def bridge_defs resume_def catch_bridge_def emit_def suspend_def
      falsy_num_def falsy_str_def account_address_def Let_def)

lemma bridge_run_confirmed:
  assumes "bridgeService (stores s) = Some svc" and "selectedToken (stores s) = Some tok"
    and "network (stores s) = Some c" and "c \<noteq> 0"
    and "destNetwork (stores s) = Some d" and "d \<noteq> 0"
    and "account (stores s) = Some acc" and "address acc = Some u" and "u \<noteq> []"
    and "selectedNFTs (stores s) = Some nfts" and "chainConfig cfg c = Some x" and "h \<noteq> []"
  shows "\<exists>s3 s4 tx. run cfg [InvokeBridge, Resume (length (tasks s)) (RWallet w),
                      Resume (length (tasks s)) (RArgs b),
                      Resume (length (tasks s)) (RHash (Some h))] s = Some s3
            \<and> txStore s3 = txStore s
            \<and> step cfg (Resume (length (tasks s)) RUnit) s3 = Some s4
            \<and> hash tx = h \<and> txStore s4 = (txStore s)(u := txStore s u @ [tx])
            \<and> tasks s4 = tasks s"
proof -
  from bridge_run_isolated[OF assms, of w b] obtain s3 where
    s3: "run cfg [InvokeBridge, Resume (length (tasks s)) (RWallet w),
                      Resume (length (tasks s)) (RArgs b),
                      Resume (length (tasks s)) (RHash (Some h))] s = Some s3"
        "txStore s3 = txStore s" "tasks s3 = tasks s @ [Confirm h c d u x]"
        "stores s3 = stores s"
    by blast
  let ?s0 = "s3\<lparr>tasks := remove_nth (length (tasks s)) (tasks s3)\<rparr>"
  have st: "step cfg (Resume (length (tasks s)) RUnit) s3 = Some (on_confirmed h c d u x ?s0)"
    using s3(3) by (simp add: step_confirm del: step.simps)
  have acc: "account (stores ?s0) = Some acc" using s3(4) assms(7) by simp
  from on_confirmed_appends[OF acc, of h c d u x] obtain tx where
    tx: "hash tx = h" "txStore (on_confirmed h c d u x ?s0) = (txStore s)(u := txStore s u @ [tx])"
    using s3(2) by auto
  have "tasks (on_confirmed h c d u x ?s0) = tasks s"
    using s3(3) by (simp add: on_confirmed_frame)
  with s3(1,2) st tx show ?thesis by blast
qed

section \<open>The scenario\<close>

text \<open>
  The states of the scenario are reached by the runs they are named after.
\<close>

lemma example_run:
  "run example_config [InvokeBridge] (initial example_stores 100) = Some example_awaiting_wallet"
  "run example_config [Resume 0 (RWallet (Wallet 0)), Resume 0 (RArgs (BridgeArgs 0))]
     example_awaiting_wallet = Some example_awaiting_hash"
  "run example_config [Resume 0 (RHash (Some ''0xabc''))] example_awaiting_hash
     = Some example_awaiting_confirmation"
  "run example_config [SetClock 200, Resume 0 RUnit] example_awaiting_confirmation
     = Some example_confirmed"
  by (simp_all add: example_state_defs example_defs model_defs)

lemma example_confirm_step:
  "step example_config (Resume 0 RUnit) (example_awaiting_confirmation\<lparr>clock := 200\<rparr>)
     = Some example_confirmed"
  by (simp add: example_state_defs example_defs model_defs)

section \<open>The record is persisted once, after the confirmation\<close>

text \<open>
  Claim C1. A successful \<^verbatim>\<open>bridge()\<close> call appends exactly one record to the transaction
  history store, and only after the tracker's promise for the bridge hash has resolved.
  First, over every interleaving: a step that changes the store is the resolution of the
  tracker's promise for some hash, and it appends one record with that hash under the
  captured sender address and consumes the callback. Second: a call that obtains a hash
  with its context present registers exactly one callback for that hash and leaves the
  store as it is. Third: when that promise resolves while the account store is set,
  exactly one record is appended. Fourth, for a call on its own whose collaborators all
  answer: the store is unchanged up to the registration, and the resolution appends one
  record with the hash.
\<close>

theorem record_appended_once_after_confirmation:
  "(step cfg a s = Some s' \<and> txStore s' \<noteq> txStore s \<longrightarrow>
      (\<exists>i h c d u x tx. a = Resume i RUnit \<and> i < length (tasks s)
          \<and> tasks s ! i = Confirm h c d u x \<and> hash tx = h
          \<and> txStore s' = (txStore s)(u := txStore s u @ [tx])
          \<and> tasks s' = remove_nth i (tasks s)))
   \<and> (i < length (tasks s) \<and> tasks s ! i = AwaitBridgeTx \<and> h \<noteq> []
        \<and> network (stores s) = Some c \<and> c \<noteq> 0 \<and> destNetwork (stores s) = Some d \<and> d \<noteq> 0
        \<and> account_address (stores s) = Some u \<and> u \<noteq> [] \<and> chainConfig cfg c = Some x \<longrightarrow>
      (\<exists>s1. step cfg (Resume i (RHash (Some h))) s = Some s1
          \<and> tasks s1 = remove_nth i (tasks s) @ [Confirm h c d u x]
          \<and> effects s1 = effects s @ [CallPendingAdd (Some h) c]
          \<and> txStore s1 = txStore s))
   \<and> (j < length (tasks s) \<and> tasks s ! j = Confirm h c d u x \<and> account (stores s) = Some acc \<longrightarrow>
      (\<exists>s2 tx. step cfg (Resume j RUnit) s = Some s2 \<and> hash tx = h
          \<and> txStore s2 = (txStore s)(u := txStore s u @ [tx])
          \<and> tasks s2 = remove_nth j (tasks s)))
   \<and> (bridgeService (stores s) = Some svc \<and> selectedToken (stores s) = Some tok
        \<and> network (stores s) = Some c \<and> c \<noteq> 0 \<and> destNetwork (stores s) = Some d \<and> d \<noteq> 0
        \<and> account (stores s) = Some acc \<and> address acc = Some u \<and> u \<noteq> []
        \<and> selectedNFTs (stores s) = Some nfts \<and> chainConfig cfg c = Some x \<and> h \<noteq> [] \<longrightarrow>
      (\<exists>s3 s4 tx. run cfg [InvokeBridge, Resume (length (tasks s)) (RWallet w),
                            Resume (length (tasks s)) (RArgs b),
                            Resume (length (tasks s)) (RHash (Some h))] s = Some s3
          \<and> txStore s3 = txStore s
          \<and> step cfg (Resume (length (tasks s)) RUnit) s3 = Some s4
          \<and> hash tx = h \<and> txStore s4 = (txStore s)(u := txStore s u @ [tx])
          \<and> tasks s4 = tasks s))"
proof (intro conjI impI)
  assume a: "step cfg a s = Some s' \<and> txStore s' \<noteq> txStore s"
  with step_cases[of cfg a s s'] obtain i h c d u x where
    r: "a = Resume i RUnit" "i < length (tasks s)" "tasks s ! i = Confirm h c d u x"
       "s' = on_confirmed h c d u x (s\<lparr>tasks := remove_nth i (tasks s)\<rparr>)"
    by blast
  let ?s0 = "s\<lparr>tasks := remove_nth i (tasks s)\<rparr>"
  from a r(4) on_confirmed_store[of h c d u x ?s0] obtain tx where
    "hash tx = h" "txStore s' = (txStore s)(u := txStore s u @ [tx])"
    by auto
  moreover have "tasks s' = remove_nth i (tasks s)"
    using r(4) by (simp add: on_confirmed_frame)
  ultimately show "\<exists>i h c d u x tx. a = Resume i RUnit \<and> i < length (tasks s)
          \<and> tasks s ! i = Confirm h c d u x \<and> hash tx = h
          \<and> txStore s' = (txStore s)(u := txStore s u @ [tx])
          \<and> tasks s' = remove_nth i (tasks s)"
    using r(1,2,3) by blast
next
  assume "i < length (tasks s) \<and> tasks s ! i = AwaitBridgeTx \<and> h \<noteq> []
        \<and> network (stores s) = Some c \<and> c \<noteq> 0 \<and> destNetwork (stores s) = Some d \<and> d \<noteq> 0
        \<and> account_address (stores s) = Some u \<and> u \<noteq> [] \<and> chainConfig cfg c = Some x"
  then show "\<exists>s1. step cfg (Resume i (RHash (Some h))) s = Some s1
          \<and> tasks s1 = remove_nth i (tasks s) @ [Confirm h c d u x]
          \<and> effects s1 = effects s @ [CallPendingAdd (Some h) c]
          \<and> txStore s1 = txStore s"
    by (simp add: step_register_confirm del: step.simps)
next
  assume h: "j < length (tasks s) \<and> tasks s ! j = Confirm h c d u x \<and> account (stores s) = Some acc"
  let ?s0 = "s\<lparr>tasks := remove_nth j (tasks s)\<rparr>"
  from h have acc: "account (stores ?s0) = Some acc" by simp
  from h have "step cfg (Resume j RUnit) s = Some (on_confirmed h c d u x ?s0)"
    by (simp add: step_confirm del: step.simps)
  moreover have "tasks (on_confirmed h c d u x ?s0) = remove_nth j (tasks s)"
    by (simp add: on_confirmed_frame)
  ultimately show "\<exists>s2 tx. step cfg (Resume j RUnit) s = Some s2 \<and> hash tx = h
          \<and> txStore s2 = (txStore s)(u := txStore s u @ [tx])
          \<and> tasks s2 = remove_nth j (tasks s)"
    using on_confirmed_appends[OF acc, of h c d u x] by auto
next
  assume "bridgeService (stores s) = Some svc \<and> selectedToken (stores s) = Some tok
        \<and> network (stores s) = Some c \<and> c \<noteq> 0 \<and> destNetwork (stores s) = Some d \<and> d \<noteq> 0
        \<and> account (stores s) = Some acc \<and> address acc = Some u \<and> u \<noteq> []
        \<and> selectedNFTs (stores s) = Some nfts \<and> chainConfig cfg c = Some x \<and> h \<noteq> []"
  then show "\<exists>s3 s4 tx. run cfg [InvokeBridge, Resume (length (tasks s)) (RWallet w),
                            Resume (length (tasks s)) (RArgs b),
                            Resume (length (tasks s)) (RHash (Some h))] s = Some s3
          \<and> txStore s3 = txStore s
          \<and> step cfg (Resume (length (tasks s)) RUnit) s3 = Some s4
          \<and> hash tx = h \<and> txStore s4 = (txStore s)(u := txStore s u @ [tx])
          \<and> tasks s4 = tasks s"
    using bridge_run_confirmed[of s svc tok c d acc u nfts cfg x h w b] by blast
qed

text \<open>
  The scenario satisfies the hypotheses of each of the four parts.
\<close>

theorem record_appended_once_after_confirmation_witness:
  "(0 < length (tasks example_awaiting_hash) \<and> tasks example_awaiting_hash ! 0 = AwaitBridgeTx
      \<and> ''0xabc'' \<noteq> []
      \<and> network (stores example_awaiting_hash) = Some 1 \<and> (1::nat) \<noteq> 0
      \<and> destNetwork (stores example_awaiting_hash) = Some 10 \<and> (10::nat) \<noteq> 0
      \<and> account_address (stores example_awaiting_hash) = Some ''0xUser'' \<and> ''0xUser'' \<noteq> []
      \<and> chainConfig example_config 1 = Some ''https://explorer.example'')
   \<and> (\<exists>s1. step example_config (Resume 0 (RHash (Some ''0xabc''))) example_awaiting_hash = Some s1
          \<and> tasks s1 = remove_nth 0 (tasks example_awaiting_hash)
               @ [Confirm ''0xabc'' 1 10 ''0xUser'' ''https://explorer.example'']
          \<and> effects s1 = effects example_awaiting_hash @ [CallPendingAdd (Some ''0xabc'') 1]
          \<and> txStore s1 = txStore example_awaiting_hash)
   \<and> (0 < length (tasks example_awaiting_confirmation)
      \<and> tasks example_awaiting_confirmation ! 0
           = Confirm ''0xabc'' 1 10 ''0xUser'' ''https://explorer.example''
      \<and> account (stores example_awaiting_confirmation) = Some \<lparr>address = Some ''0xUser''\<rparr>)
   \<and> (\<exists>s2 tx. step example_config (Resume 0 RUnit) example_awaiting_confirmation = Some s2
          \<and> hash tx = ''0xabc''
          \<and> txStore s2 = (txStore example_awaiting_confirmation)
               (''0xUser'' := txStore example_awaiting_confirmation ''0xUser'' @ [tx])
          \<and> tasks s2 = remove_nth 0 (tasks example_awaiting_confirmation))
   \<and> (step example_config (Resume 0 RUnit) (example_awaiting_confirmation\<lparr>clock := 200\<rparr>)
         = Some example_confirmed
      \<and> txStore example_confirmed \<noteq> txStore (example_awaiting_confirmation\<lparr>clock := 200\<rparr>))
   \<and> (\<exists>i h c d u x tx. Resume 0 RUnit = Resume i RUnit
          \<and> i < length (tasks (example_awaiting_confirmation\<lparr>clock := 200\<rparr>))
          \<and> tasks (example_awaiting_confirmation\<lparr>clock := 200\<rparr>) ! i = Confirm h c d u x
          \<and> hash tx = h
          \<and> txStore example_confirmed
              = (txStore (example_awaiting_confirmation\<lparr>clock := 200\<rparr>))
                  (u := txStore (example_awaiting_confirmation\<lparr>clock := 200\<rparr>) u @ [tx])
          \<and> tasks example_confirmed
              = remove_nth i (tasks (example_awaiting_confirmation\<lparr>clock := 200\<rparr>)))
   \<and> (bridgeService (stores (initial example_stores 100)) = Some (Bridge 0)
      \<and> selectedToken (stores (initial example_stores 100)) = Some example_token
      \<and> network (stores (initial example_stores 100)) = Some 1 \<and> (1::nat) \<noteq> 0
      \<and> destNetwork (stores (initial example_stores 100)) = Some 10 \<and> (10::nat) \<noteq> 0
      \<and> account (stores (initial example_stores 100)) = Some \<lparr>address = Some ''0xUser''\<rparr>
      \<and> address \<lparr>address = Some ''0xUser''\<rparr> = Some ''0xUser'' \<and> ''0xUser'' \<noteq> []
      \<and> selectedNFTs (stores (initial example_stores 100)) = Some [\<lparr>tokenId = 42\<rparr>]
      \<and> chainConfig example_config 1 = Some ''https://explorer.example'' \<and> ''0xabc'' \<noteq> [])
   \<and> (\<exists>s3 s4 tx. run example_config
                    [InvokeBridge, Resume (length (tasks (initial example_stores 100))) (RWallet (Wallet 0)),
                     Resume (length (tasks (initial example_stores 100))) (RArgs (BridgeArgs 0)),
                     Resume (length (tasks (initial example_stores 100))) (RHash (Some ''0xabc''))]
                    (initial example_stores 100) = Some s3
          \<and> txStore s3 = txStore (initial example_stores 100)
          \<and> step example_config (Resume (length (tasks (initial example_stores 100))) RUnit) s3 = Some s4
          \<and> hash tx = ''0xabc''
          \<and> txStore s4 = (txStore (initial example_stores 100))
               (''0xUser'' := txStore (initial example_stores 100) ''0xUser'' @ [tx])
          \<and> tasks s4 = tasks (initial example_stores 100))
   \<and> txStore example_awaiting_confirmation ''0xUser'' = []
   \<and> txStore example_confirmed ''0xUser'' = [example_record]"
proof -
  have h2: "0 < length (tasks example_awaiting_hash) \<and> tasks example_awaiting_hash ! 0 = AwaitBridgeTx
      \<and> ''0xabc'' \<noteq> []
      \<and> network (stores example_awaiting_hash) = Some 1 \<and> (1::nat) \<noteq> 0
      \<and> destNetwork (stores example_awaiting_hash) = Some 10 \<and> (10::nat) \<noteq> 0
      \<and> account_address (stores example_awaiting_hash) = Some ''0xUser'' \<and> ''0xUser'' \<noteq> []
      \<and> chainConfig example_config 1 = Some ''https://explorer.example''"
    by (simp add: example_state_defs example_defs account_address_def)
  note c2 = record_appended_once_after_confirmation
    [where cfg = example_config and s = example_awaiting_hash and i = 0 and h = "''0xabc''"
       and c = 1 and d = 10 and u = "''0xUser''" and x = "''https://explorer.example''",
     THEN conjunct2, THEN conjunct1, THEN mp, OF h2]
  have h3: "0 < length (tasks example_awaiting_confirmation)
      \<and> tasks example_awaiting_confirmation ! 0
           = Confirm ''0xabc'' 1 10 ''0xUser'' ''https://explorer.example''
      \<and> account (stores example_awaiting_confirmation) = Some \<lparr>address = Some ''0xUser''\<rparr>"
    by (simp add: example_state_defs example_defs)
  note c3 = record_appended_once_after_confirmation
    [where cfg = example_config and s = example_awaiting_confirmation and j = 0
       and h = "''0xabc''" and c = 1 and d = 10 and u = "''0xUser''"
       and x = "''https://explorer.example''" and acc = "\<lparr>address = Some ''0xUser''\<rparr>",
     THEN conjunct2, THEN conjunct2, THEN conjunct1, THEN mp, OF h3]
  have h1: "step example_config (Resume 0 RUnit) (example_awaiting_confirmation\<lparr>clock := 200\<rparr>)
         = Some example_confirmed
      \<and> txStore example_confirmed \<noteq> txStore (example_awaiting_confirmation\<lparr>clock := 200\<rparr>)"
    by (simp add: example_state_defs example_defs model_defs fun_upd_idem_iff)
  note c1 = record_appended_once_after_confirmation
    [where cfg = example_config and s = "example_awaiting_confirmation\<lparr>clock := 200\<rparr>"
       and a = "Resume 0 RUnit" and s' = example_confirmed,
     THEN conjunct1, THEN mp, OF h1]
  have h4: "bridgeService (stores (initial example_stores 100)) = Some (Bridge 0)
      \<and> selectedToken (stores (initial example_stores 100)) = Some example_token
      \<and> network (stores (initial example_stores 100)) = Some 1 \<and> (1::nat) \<noteq> 0
      \<and> destNetwork (stores (initial example_stores 100)) = Some 10 \<and> (10::nat) \<noteq> 0
      \<and> account (stores (initial example_stores 100)) = Some \<lparr>address = Some ''0xUser''\<rparr>
      \<and> address \<lparr>address = Some ''0xUser''\<rparr> = Some ''0xUser'' \<and> ''0xUser'' \<noteq> []
      \<and> selectedNFTs (stores (initial example_stores 100)) = Some [\<lparr>tokenId = 42\<rparr>]
      \<and> chainConfig example_config 1 = Some ''https://explorer.example'' \<and> ''0xabc'' \<noteq> []"
    by (simp add: example_defs)
  note c4 = record_appended_once_after_confirmation
    [where cfg = example_config and s = "initial example_stores 100" and svc = "Bridge 0"
       and tok = example_token and c = 1 and d = 10 and acc = "\<lparr>address = Some ''0xUser''\<rparr>"
       and u = "''0xUser''" and nfts = "[\<lparr>tokenId = 42\<rparr>]"
       and x = "''https://explorer.example''" and h = "''0xabc''"
       and w = "Wallet 0" and b = "BridgeArgs 0",
     THEN conjunct2, THEN conjunct2, THEN conjunct2, THEN mp, OF h4]
  have e: "txStore example_awaiting_confirmation ''0xUser'' = []
      \<and> txStore example_confirmed ''0xUser'' = [example_record]"
    by (simp add: example_state_defs example_defs)
  show ?thesis
    by (rule conjI[OF h2 conjI[OF c2 conjI[OF h3 conjI[OF c3 conjI[OF h1 conjI[OF c1
          conjI[OF h4 conjI[OF c4 e]]]]]]]])
qed

section \<open>The guard on the token ids\<close>

text \<open>
  Claim C2, as amended. The claim says that \<^verbatim>\<open>bridge()\<close> fails with the token-ids error when
  the selected NFT sequence is empty. The guard of line 168 tests the sequence for
  truthiness, and an empty array is truthy: the guard fires when no sequence is selected.
  Amended: in a state that passes the guard of line 155, with no NFT sequence selected,
  \<^verbatim>\<open>bridge()\<close> requests the wallet, raises the error "tokenIds not found", logs it and hands it
  to the bridge-error handler, resets \<open>bridging\<close> to false, calls neither the argument
  builder nor the bridge service, and leaves nothing suspended.
\<close>

theorem bridge_without_token_ids_fails:
  assumes "bridgeService (stores s) = Some svc" and "selectedToken (stores s) = Some tok"
    and "network (stores s) = Some n" and "destNetwork (stores s) = Some d" and "d \<noteq> 0"
    and "account (stores s) = Some acc" and "address acc = Some u" and "u \<noteq> []"
    and "selectedNFTs (stores s) = None"
  shows "\<exists>s'. run cfg [InvokeBridge, Resume (length (tasks s)) (RWallet w)] s = Some s'
           \<and> effects s' = effects s @ [CallGetConnectedWallet n,
                 ConsoleError (Error ''tokenIds not found''),
                 HandleBridgeError (Error ''tokenIds not found'')]
           \<and> bridging s' = False \<and> tasks s' = tasks s \<and> txStore s' = txStore s
           \<and> bridgingStatus s' = bridgingStatus s"
  using assms
  by (simp add: bridge_def bridge_defs resume_def catch_bridge_def emit_def suspend_def
      falsy_num_def falsy_str_def account_address_def Let_def)

text \<open>
  The scenario with no NFT sequence selected.
\<close>

theorem bridge_without_token_ids_fails_witness:
  "(bridgeService (stores (initial (example_stores\<lparr>selectedNFTs := None\<rparr>) 100)) = Some (Bridge 0)
     \<and> selectedToken (stores (initial (example_stores\<lparr>selectedNFTs := None\<rparr>) 100)) = Some example_token
     \<and> network (stores (initial (example_stores\<lparr>selectedNFTs := None\<rparr>) 100)) = Some 1
     \<and> destNetwork (stores (initial (example_stores\<lparr>selectedNFTs := None\<rparr>) 100)) = Some 10
     \<and> account (stores (initial (example_stores\<lparr>selectedNFTs := None\<rparr>) 100))
         = Some \<lparr>address = Some ''0xUser''\<rparr>
     \<and> selectedNFTs (stores (initial (example_stores\<lparr>selectedNFTs := None\<rparr>) 100)) = None)
   \<and> (\<exists>s'. run example_config
              [InvokeBridge,
               Resume (length (tasks (initial (example_stores\<lparr>selectedNFTs := None\<rparr>) 100)))
                 (RWallet (Wallet 0))]
              (initial (example_stores\<lparr>selectedNFTs := None\<rparr>) 100) = Some s'
          \<and> effects s' = effects (initial (example_stores\<lparr>selectedNFTs := None\<rparr>) 100)
               @ [CallGetConnectedWallet 1, ConsoleError (Error ''tokenIds not found''),
                  HandleBridgeError (Error ''tokenIds not found'')]
          \<and> bridging s' = False
          \<and> tasks s' = tasks (initial (example_stores\<lparr>selectedNFTs := None\<rparr>) 100)
          \<and> txStore s' = txStore (initial (example_stores\<lparr>selectedNFTs := None\<rparr>) 100)
          \<and> bridgingStatus s' = bridgingStatus (initial (example_stores\<lparr>selectedNFTs := None\<rparr>) 100))"
proof -
  let ?s = "initial (example_stores\<lparr>selectedNFTs := None\<rparr>) 100"
  have h: "bridgeService (stores ?s) = Some (Bridge 0)" "selectedToken (stores ?s) = Some example_token"
    "network (stores ?s) = Some 1" "destNetwork (stores ?s) = Some 10" "(10::nat) \<noteq> 0"
    "account (stores ?s) = Some \<lparr>address = Some ''0xUser''\<rparr>"
    "address \<lparr>address = Some ''0xUser''\<rparr> = Some ''0xUser''" "''0xUser'' \<noteq> []"
    "selectedNFTs (stores ?s) = None"
    by (simp_all add: example_defs)
  note c = bridge_without_token_ids_fails[OF h, where cfg = example_config and w = "Wallet 0"]
  from h(1,2,3,4,6,9) c show ?thesis by (intro conjI)
qed

text \<open>
  Claim C2 as stated fails: with the empty sequence selected, the same call builds the
  arguments and submits the bridge transaction with no token ids, no error is logged and
  \<open>bridging\<close> is still true.
\<close>

theorem empty_token_ids_counterexample:
  "selectedNFTs (stores (initial (example_stores\<lparr>selectedNFTs := Some []\<rparr>) 100)) = Some []
   \<and> map_option effects
       (run example_config
          [InvokeBridge, Resume 0 (RWallet (Wallet 0)), Resume 0 (RArgs (BridgeArgs 0))]
          (initial (example_stores\<lparr>selectedNFTs := Some []\<rparr>) 100))
       = Some [CallGetConnectedWallet 1,
               CallGetBridgeArgs (Some example_token) 1
                 \<lparr>to_addr = Some ''0xUser'', ca_wallet = Wallet 0, ca_srcChainId = 1,
                  ca_destChainId = Some 10, fee = 0\<rparr> [],
               CallBridge (Bridge 0) (BridgeArgs 0) []]
   \<and> map_option bridging
        (run example_config
           [InvokeBridge, Resume 0 (RWallet (Wallet 0)), Resume 0 (RArgs (BridgeArgs 0))]
           (initial (example_stores\<lparr>selectedNFTs := Some []\<rparr>) 100)) = Some True"
  by (simp add: example_defs model_defs)

section \<open>The pause check\<close>

text \<open>
  Claim C3 says that \<^verbatim>\<open>approve()\<close> fails with the bridge-paused error while the oracle reports
  paused, and that this error is caught at the function boundary, logged and forwarded to
  the bridge-error handler. The code does not do this. In the scenario, with the oracle
  answering paused, the error raised at line 92 ends as an unhandled rejection: it is
  neither logged nor handed to the handler, and \<^verbatim>\<open>approve()\<close> goes on to call the bridge's
  \<^verbatim>\<open>approve\<close> and waits for the hash of the approval.
\<close>

theorem approve_paused_error_not_caught:
  "map_option effects
     (run example_config
        [InvokeApprove, Resume 0 (RBool True), Resume 0 (RWallet (Wallet 0)), Resume 0 RUnit]
        (initial example_stores 100))
     = Some [CallIsBridgePaused, CallGetConnectedWallet 1,
             UnhandledRejection (BridgePausedError ''Bridge is paused''),
             CallApprove ERC721
               \<lparr>tokenIds = Some [42], tokenAddress = example_token_address,
                spenderAddress = ''0xVault721'', wallet = Wallet 0\<rparr>]
   \<and> map_option tasks
        (run example_config
           [InvokeApprove, Resume 0 (RBool True), Resume 0 (RWallet (Wallet 0)), Resume 0 RUnit]
           (initial example_stores 100))
       = Some [AwaitApproveTx]"
  by (simp add: example_defs model_defs)

section \<open>Missing preconditions\<close>

text \<open>
  Claim C4, as amended. The claim says that with a precondition missing both operations
  return at once, raise no error, submit nothing and change no state. That holds for
  \<^verbatim>\<open>bridge()\<close>: the state stays as it is and no collaborator is called. \<^verbatim>\<open>approve()\<close> starts the
  pause check (line 91) before it tests its preconditions (line 96). Amended: with the
  token, the network or the destination id missing, \<^verbatim>\<open>approve()\<close> does nothing but start the
  pause check: no variable of the component and no record changes, nothing is submitted,
  and when the oracle answers not paused nothing further happens.
\<close>

theorem missing_precondition_is_noop:
  "(bridgeService (stores s) = None \<or> selectedToken (stores s) = None \<or> network (stores s) = None
      \<or> falsy_num (destNetwork (stores s)) \<or> falsy_str (account_address (stores s)) \<longrightarrow>
      step cfg InvokeBridge s = Some s)
   \<and> (selectedToken (stores s) = None \<or> network (stores s) = None
      \<or> falsy_num (destNetwork (stores s)) \<longrightarrow>
      step cfg InvokeApprove s
        = Some (s\<lparr>tasks := tasks s @ [PauseCheck], effects := effects s @ [CallIsBridgePaused]\<rparr>)
      \<and> run cfg [InvokeApprove, Resume (length (tasks s)) (RBool False)] s
        = Some (s\<lparr>effects := effects s @ [CallIsBridgePaused]\<rparr>))"
  by (auto simp: bridge_def approve_def resume_def emit_def suspend_def Let_def
      split: option.splits)

text \<open>
  The scenario without a bridge service, and without a selected token.
\<close>

theorem missing_precondition_is_noop_witness:
  "(bridgeService (stores (initial (example_stores\<lparr>bridgeService := None\<rparr>) 100)) = None
      \<or> selectedToken (stores (initial (example_stores\<lparr>bridgeService := None\<rparr>) 100)) = None
      \<or> network (stores (initial (example_stores\<lparr>bridgeService := None\<rparr>) 100)) = None
      \<or> falsy_num (destNetwork (stores (initial (example_stores\<lparr>bridgeService := None\<rparr>) 100)))
      \<or> falsy_str (account_address (stores (initial (example_stores\<lparr>bridgeService := None\<rparr>) 100))))
   \<and> step example_config InvokeBridge (initial (example_stores\<lparr>bridgeService := None\<rparr>) 100)
       = Some (initial (example_stores\<lparr>bridgeService := None\<rparr>) 100)
   \<and> (selectedToken (stores (initial (example_stores\<lparr>selectedToken := None\<rparr>) 100)) = None
      \<or> network (stores (initial (example_stores\<lparr>selectedToken := None\<rparr>) 100)) = None
      \<or> falsy_num (destNetwork (stores (initial (example_stores\<lparr>selectedToken := None\<rparr>) 100))))
   \<and> (step example_config InvokeApprove (initial (example_stores\<lparr>selectedToken := None\<rparr>) 100)
        = Some ((initial (example_stores\<lparr>selectedToken := None\<rparr>) 100)
                 \<lparr>tasks := tasks (initial (example_stores\<lparr>selectedToken := None\<rparr>) 100) @ [PauseCheck],
                  effects := effects (initial (example_stores\<lparr>selectedToken := None\<rparr>) 100)
                               @ [CallIsBridgePaused]\<rparr>)
      \<and> run example_config
           [InvokeApprove,
            Resume (length (tasks (initial (example_stores\<lparr>selectedToken := None\<rparr>) 100))) (RBool False)]
           (initial (example_stores\<lparr>selectedToken := None\<rparr>) 100)
        = Some ((initial (example_stores\<lparr>selectedToken := None\<rparr>) 100)
                 \<lparr>effects := effects (initial (example_stores\<lparr>selectedToken := None\<rparr>) 100)
                               @ [CallIsBridgePaused]\<rparr>))"
proof -
  let ?b = "initial (example_stores\<lparr>bridgeService := None\<rparr>) 100"
  let ?a = "initial (example_stores\<lparr>selectedToken := None\<rparr>) 100"
  have h1: "bridgeService (stores ?b) = None \<or> selectedToken (stores ?b) = None
      \<or> network (stores ?b) = None \<or> falsy_num (destNetwork (stores ?b))
      \<or> falsy_str (account_address (stores ?b))"
    by (simp add: example_defs)
  note c1 = missing_precondition_is_noop
    [where cfg = example_config and s = ?b, THEN conjunct1, THEN mp, OF h1]
  have h2: "selectedToken (stores ?a) = None \<or> network (stores ?a) = None
      \<or> falsy_num (destNetwork (stores ?a))"
    by (simp add: example_defs)
  note c2 = missing_precondition_is_noop
    [where cfg = example_config and s = ?a, THEN conjunct2, THEN mp, OF h2]
  show ?thesis by (rule conjI[OF h1 conjI[OF c1 conjI[OF h2 c2]]])
qed

text \<open>
  Claim C4 as stated fails: without a selected token and with the oracle answering paused,
  \<^verbatim>\<open>approve()\<close> raises the bridge-paused error.
\<close>

theorem approve_noop_pause_error_counterexample:
  "selectedToken (stores (initial (example_stores\<lparr>selectedToken := None\<rparr>) 100)) = None
   \<and> map_option effects
        (run example_config [InvokeApprove, Resume 0 (RBool True)]
           (initial (example_stores\<lparr>selectedToken := None\<rparr>) 100))
       = Some [CallIsBridgePaused, UnhandledRejection (BridgePausedError ''Bridge is paused'')]"
  by (simp add: example_defs model_defs)

section \<open>The spender\<close>

lemma approve_try_spender:
  assumes "approve_try cfg t out s = Some r" and "effects (snd r) = effects s @ es"
    and "CallApprove ty args \<in> set es"
  shows "\<exists>n row d r0. network (stores s) = Some n \<and> routingContractsMap cfg n = Some row
           \<and> destNetwork (stores s) = Some d \<and> row d = Some r0
           \<and> spenderAddress args
               = (if ty = ERC1155 then erc1155VaultAddress r0 else erc721VaultAddress r0)"
  using assms
  by (elim approve_try.elims)
     (auto simp: approve_defs emit_def suspend_def spender_of_def Let_def
        split: option.splits sum.splits if_splits)

lemma catch_approve_effects:
  "\<exists>es. effects (catch_approve r) = effects (snd r) @ es \<and> (\<forall>ty args. CallApprove ty args \<notin> set es)"
  by (cases "fst r") (auto simp: catch_approve_def emit_def)

lemma bridge_try_effects:
  assumes "bridge_try cfg t out s = Some r"
  shows "\<exists>es. effects (catch_bridge r) = effects s @ es \<and> (\<forall>ty args. CallApprove ty args \<notin> set es)"
  using assms
  by (elim bridge_try.elims)
     (auto simp: bridge_defs catch_bridge_def emit_def suspend_def Let_def
        split: option.splits sum.splits if_splits)

lemma callback_effects:
  assumes "callback t out s = Some s'"
  shows "\<exists>es. effects s' = effects s @ es \<and> (\<forall>ty args. CallApprove ty args \<notin> set es)"
  using assms
  by (elim callback.elims)
     (auto simp: on_confirmed_def emit_def Let_def split: option.splits if_splits)

lemma approve_try_effects_prefix:
  assumes "approve_try cfg t out s = Some r"
  shows "\<exists>es. effects (snd r) = effects s @ es"
  using assms
  by (elim approve_try.elims)
     (auto simp: approve_defs emit_def suspend_def Let_def
        split: option.splits sum.splits if_splits)

lemma step_spender:
  assumes "step cfg a s = Some s'" and "effects s' = effects s @ es"
    and "CallApprove ty args \<in> set es"
  shows "\<exists>n row d r0. network (stores s) = Some n \<and> routingContractsMap cfg n = Some row
           \<and> destNetwork (stores s) = Some d \<and> row d = Some r0
           \<and> spenderAddress args
               = (if ty = ERC1155 then erc1155VaultAddress r0 else erc721VaultAddress r0)"
proof (cases a)
  case InvokeApprove
  with assms show ?thesis
    by (auto simp: approve_def emit_def suspend_def Let_def split: option.splits if_splits)
next
  case InvokeBridge
  with assms show ?thesis
    by (auto simp: bridge_def emit_def suspend_def Let_def split: option.splits if_splits)
next
  case (Resume i out)
  with assms have i: "i < length (tasks s)"
    and r: "resume cfg (tasks s ! i) out (s\<lparr>tasks := remove_nth i (tasks s)\<rparr>) = Some s'"
    by (auto split: if_splits)
  let ?s0 = "s\<lparr>tasks := remove_nth i (tasks s)\<rparr>"
  from resume_cases[OF r] show ?thesis
  proof (elim disjE exE conjE)
    fix r assume a: "approve_try cfg (tasks s ! i) out ?s0 = Some r" "s' = catch_approve r"
    from approve_try_effects_prefix[OF a(1)] obtain es1 where
      es1: "effects (snd r) = effects ?s0 @ es1" by blast
    from catch_approve_effects[of r] obtain es2 where
      es2: "effects (catch_approve r) = effects (snd r) @ es2"
           "\<forall>ty args. CallApprove ty args \<notin> set es2" by blast
    from es1 es2 a(2) assms(2) have "es = es1 @ es2" by simp
    with assms(3) es2(2) have "CallApprove ty args \<in> set es1" by auto
    from approve_try_spender[OF a(1) es1 this] show ?thesis by simp
  next
    fix r assume a: "bridge_try cfg (tasks s ! i) out ?s0 = Some r" "s' = catch_bridge r"
    from bridge_try_effects[OF a(1)] a(2) assms(2,3) show ?thesis by auto
  next
    assume "callback (tasks s ! i) out ?s0 = Some s'"
    from callback_effects[OF this] assms(2,3) show ?thesis by auto
  qed
next
  case (SetStores st)
  with assms show ?thesis by auto
next
  case (SetClock n)
  with assms show ?thesis by auto
qed

lemma approve_run_direct:
  assumes "selectedToken (stores s) = Some tok" and "network (stores s) = Some n"
    and "destNetwork (stores s) = Some d" and "d \<noteq> 0"
    and "getAddress cfg (map_of (tk_addresses tok) n) = Inr (Some addr)" and "addr \<noteq> []"
    and "routingContractsMap cfg n = Some row" and "row d = Some r0"
  shows "\<exists>s'. run cfg [InvokeApprove, Resume (Suc (length (tasks s))) (RWallet w),
                      Resume (Suc (length (tasks s))) RUnit] s = Some s'
           \<and> effects s' = effects s @
                [CallIsBridgePaused, CallGetConnectedWallet n,
                 CallApprove (tk_type tok)
                   \<lparr>tokenIds = map_option (map (\<lambda>nft. int (tokenId nft))) (selectedNFTs (stores s)),
                    tokenAddress = addr,
                    spenderAddress = (if tk_type tok = ERC1155 then erc1155VaultAddress r0
                                      else erc721VaultAddress r0),
                    wallet = w\<rparr>]"
  using assms
  by (simp add: approve_def approve_defs resume_def catch_approve_def emit_def suspend_def
      falsy_num_def falsy_str_def spender_of_def Let_def)

lemma approve_run_cross_chain:
  assumes "selectedToken (stores s) = Some tok" and "network (stores s) = Some n"
    and "destNetwork (stores s) = Some d" and "d \<noteq> 0"
    and "getAddress cfg (map_of (tk_addresses tok) n) = Inr a" and "falsy_str a"
    and "addr \<noteq> []"
    and "routingContractsMap cfg n = Some row" and "row d = Some r0"
  shows "\<exists>s'. run cfg [InvokeApprove, Resume (Suc (length (tasks s))) (RWallet w),
                      Resume (Suc (length (tasks s))) RUnit,
                      Resume (Suc (length (tasks s))) (RAddr (Some addr))] s = Some s'
           \<and> effects s' = effects s @
                [CallIsBridgePaused, CallGetConnectedWallet n,
                 CallGetCrossChainAddress (Some tok) n d,
                 CallApprove (tk_type tok)
                   \<lparr>tokenIds = map_option (map (\<lambda>nft. int (tokenId nft))) (selectedNFTs (stores s)),
                    tokenAddress = addr,
                    spenderAddress = (if tk_type tok = ERC1155 then erc1155VaultAddress r0
                                      else erc721VaultAddress r0),
                    wallet = w\<rparr>]"
  using assms
  by (simp add: approve_def approve_defs resume_def catch_approve_def emit_def suspend_def
      falsy_num_def spender_of_def Let_def falsy_str_def[of "Some addr"])

text \<open>
  Claim C5. Whenever \<^verbatim>\<open>approve()\<close> reaches the selection of the spender, the spender passed
  to the bridge's \<^verbatim>\<open>approve\<close> is the ERC1155 vault of the routing entry for the source and
  destination chain when the token type is ERC1155, and the ERC721 vault otherwise. First,
  over every interleaving: a step that calls the bridge's \<^verbatim>\<open>approve\<close> for a type passes the
  vault selected by that type from the entry of the current network pair. Second and
  third, for a call on its own, with the address found directly or through the
  cross-chain resolver: the type is the one of the selected token.
\<close>

theorem approve_spender_follows_token_standard:
  "(step cfg a s = Some s' \<and> effects s' = effects s @ es \<and> CallApprove ty args \<in> set es \<longrightarrow>
      (\<exists>n row d r0. network (stores s) = Some n \<and> routingContractsMap cfg n = Some row
           \<and> destNetwork (stores s) = Some d \<and> row d = Some r0
           \<and> spenderAddress args
               = (if ty = ERC1155 then erc1155VaultAddress r0 else erc721VaultAddress r0)))
   \<and> (selectedToken (stores s) = Some tok \<and> network (stores s) = Some n
      \<and> destNetwork (stores s) = Some d \<and> d \<noteq> 0
      \<and> getAddress cfg (map_of (tk_addresses tok) n) = Inr (Some addr) \<and> addr \<noteq> []
      \<and> routingContractsMap cfg n = Some row \<and> row d = Some r0 \<longrightarrow>
      (\<exists>s1. run cfg [InvokeApprove, Resume (Suc (length (tasks s))) (RWallet w),
                      Resume (Suc (length (tasks s))) RUnit] s = Some s1
           \<and> effects s1 = effects s @
                [CallIsBridgePaused, CallGetConnectedWallet n,
                 CallApprove (tk_type tok)
                   \<lparr>tokenIds = map_option (map (\<lambda>nft. int (tokenId nft))) (selectedNFTs (stores s)),
                    tokenAddress = addr,
                    spenderAddress = (if tk_type tok = ERC1155 then erc1155VaultAddress r0
                                      else erc721VaultAddress r0),
                    wallet = w\<rparr>]))
   \<and> (selectedToken (stores s) = Some tok \<and> network (stores s) = Some n
      \<and> destNetwork (stores s) = Some d \<and> d \<noteq> 0
      \<and> getAddress cfg (map_of (tk_addresses tok) n) = Inr a0 \<and> falsy_str a0 \<and> addr \<noteq> []
      \<and> routingContractsMap cfg n = Some row \<and> row d = Some r0 \<longrightarrow>
      (\<exists>s2. run cfg [InvokeApprove, Resume (Suc (length (tasks s))) (RWallet w),
                      Resume (Suc (length (tasks s))) RUnit,
                      Resume (Suc (length (tasks s))) (RAddr (Some addr))] s = Some s2
           \<and> effects s2 = effects s @
                [CallIsBridgePaused, CallGetConnectedWallet n,
                 CallGetCrossChainAddress (Some tok) n d,
                 CallApprove (tk_type tok)
                   \<lparr>tokenIds = map_option (map (\<lambda>nft. int (tokenId nft))) (selectedNFTs (stores s)),
                    tokenAddress = addr,
                    spenderAddress = (if tk_type tok = ERC1155 then erc1155VaultAddress r0
                                      else erc721VaultAddress r0),
                    wallet = w\<rparr>]))"
proof (intro conjI impI)
  assume "step cfg a s = Some s' \<and> effects s' = effects s @ es \<and> CallApprove ty args \<in> set es"
  then show "\<exists>n row d r0. network (stores s) = Some n \<and> routingContractsMap cfg n = Some row
           \<and> destNetwork (stores s) = Some d \<and> row d = Some r0
           \<and> spenderAddress args
               = (if ty = ERC1155 then erc1155VaultAddress r0 else erc721VaultAddress r0)"
    using step_spender[of cfg a s s' es ty args] by blast
next
  assume "selectedToken (stores s) = Some tok \<and> network (stores s) = Some n
      \<and> destNetwork (stores s) = Some d \<and> d \<noteq> 0
      \<and> getAddress cfg (map_of (tk_addresses tok) n) = Inr (Some addr) \<and> addr \<noteq> []
      \<and> routingContractsMap cfg n = Some row \<and> row d = Some r0"
  then show "\<exists>s1. run cfg [InvokeApprove, Resume (Suc (length (tasks s))) (RWallet w),
                      Resume (Suc (length (tasks s))) RUnit] s = Some s1
           \<and> effects s1 = effects s @
                [CallIsBridgePaused, CallGetConnectedWallet n,
                 CallApprove (tk_type tok)
                   \<lparr>tokenIds = map_option (map (\<lambda>nft. int (tokenId nft))) (selectedNFTs (stores s)),
                    tokenAddress = addr,
                    spenderAddress = (if tk_type tok = ERC1155 then erc1155VaultAddress r0
                                      else erc721VaultAddress r0),
                    wallet = w\<rparr>]"
    using approve_run_direct[of s tok n d cfg addr row r0 w] by blast
next
  assume "selectedToken (stores s) = Some tok \<and> network (stores s) = Some n
      \<and> destNetwork (stores s) = Some d \<and> d \<noteq> 0
      \<and> getAddress cfg (map_of (tk_addresses tok) n) = Inr a0 \<and> falsy_str a0 \<and> addr \<noteq> []
      \<and> routingContractsMap cfg n = Some row \<and> row d = Some r0"
  then show "\<exists>s2. run cfg [InvokeApprove, Resume (Suc (length (tasks s))) (RWallet w),
                      Resume (Suc (length (tasks s))) RUnit,
                      Resume (Suc (length (tasks s))) (RAddr (Some addr))] s = Some s2
           \<and> effects s2 = effects s @
                [CallIsBridgePaused, CallGetConnectedWallet n,
                 CallGetCrossChainAddress (Some tok) n d,
                 CallApprove (tk_type tok)
                   \<lparr>tokenIds = map_option (map (\<lambda>nft. int (tokenId nft))) (selectedNFTs (stores s)),
                    tokenAddress = addr,
                    spenderAddress = (if tk_type tok = ERC1155 then erc1155VaultAddress r0
                                      else erc721VaultAddress r0),
                    wallet = w\<rparr>]"
    using approve_run_cross_chain[of s tok n d cfg a0 addr row r0 w] by blast
qed

text \<open>
  The scenario with the ERC721 token; and, for the path through the resolver, an ERC1155
  token that has no address on the source chain, under the setting whose \<^verbatim>\<open>getAddress\<close>
  hands the missing entry through.
\<close>

theorem approve_spender_follows_token_standard_witness:
  "(step example_config (Resume 1 RUnit) example_approve_awaiting_address
        = Some example_approve_submitted
      \<and> effects example_approve_submitted
          = effects example_approve_awaiting_address @ [CallApprove ERC721 example_approve_args]
      \<and> CallApprove ERC721 example_approve_args \<in> set [CallApprove ERC721 example_approve_args])
   \<and> (\<exists>n row d r0. network (stores example_approve_awaiting_address) = Some n
          \<and> routingContractsMap example_config n = Some row
          \<and> destNetwork (stores example_approve_awaiting_address) = Some d \<and> row d = Some r0
          \<and> spenderAddress example_approve_args
              = (if ERC721 = ERC1155 then erc1155VaultAddress r0 else erc721VaultAddress r0))
   \<and> (selectedToken (stores (initial example_stores 100)) = Some example_token
      \<and> network (stores (initial example_stores 100)) = Some 1
      \<and> destNetwork (stores (initial example_stores 100)) = Some 10 \<and> (10::nat) \<noteq> 0
      \<and> getAddress example_config (map_of (tk_addresses example_token) 1) = Inr (Some example_token_address)
      \<and> example_token_address \<noteq> []
      \<and> routingContractsMap example_config 1 = Some example_routes
      \<and> example_routes 10 = Some example_vaults)
   \<and> (\<exists>s1. run example_config
              [InvokeApprove, Resume (Suc (length (tasks (initial example_stores 100)))) (RWallet (Wallet 0)),
               Resume (Suc (length (tasks (initial example_stores 100)))) RUnit]
              (initial example_stores 100) = Some s1
          \<and> effects s1 = effects (initial example_stores 100) @
               [CallIsBridgePaused, CallGetConnectedWallet 1,
                CallApprove (tk_type example_token)
                  \<lparr>tokenIds = map_option (map (\<lambda>nft. int (tokenId nft)))
                                (selectedNFTs (stores (initial example_stores 100))),
                   tokenAddress = example_token_address,
                   spenderAddress = (if tk_type example_token = ERC1155
                                     then erc1155VaultAddress example_vaults
                                     else erc721VaultAddress example_vaults),
                   wallet = Wallet 0\<rparr>])
   \<and> (selectedToken (stores (initial example_foreign_stores 100)) = Some example_foreign_token
      \<and> network (stores (initial example_foreign_stores 100)) = Some 1
      \<and> destNetwork (stores (initial example_foreign_stores 100)) = Some 10 \<and> (10::nat) \<noteq> 0
      \<and> getAddress example_lenient_config (map_of (tk_addresses example_foreign_token) 1) = Inr None
      \<and> falsy_str None \<and> ''0xCanonical'' \<noteq> []
      \<and> routingContractsMap example_lenient_config 1 = Some example_routes
      \<and> example_routes 10 = Some example_vaults)
   \<and> (\<exists>s2. run example_lenient_config
              [InvokeApprove,
               Resume (Suc (length (tasks (initial example_foreign_stores 100)))) (RWallet (Wallet 0)),
               Resume (Suc (length (tasks (initial example_foreign_stores 100)))) RUnit,
               Resume (Suc (length (tasks (initial example_foreign_stores 100))))
                 (RAddr (Some ''0xCanonical''))]
              (initial example_foreign_stores 100) = Some s2
          \<and> effects s2 = effects (initial example_foreign_stores 100) @
               [CallIsBridgePaused, CallGetConnectedWallet 1,
                CallGetCrossChainAddress (Some example_foreign_token) 1 10,
                CallApprove (tk_type example_foreign_token)
                  \<lparr>tokenIds = map_option (map (\<lambda>nft. int (tokenId nft)))
                                (selectedNFTs (stores (initial example_foreign_stores 100))),
                   tokenAddress = ''0xCanonical'',
                   spenderAddress = (if tk_type example_foreign_token = ERC1155
                                     then erc1155VaultAddress example_vaults
                                     else erc721VaultAddress example_vaults),
                   wallet = Wallet 0\<rparr>])
   \<and> tk_type example_token = ERC721 \<and> erc721VaultAddress example_vaults = ''0xVault721''
   \<and> tk_type example_foreign_token = ERC1155 \<and> erc1155VaultAddress example_vaults = ''0xVault1155''"
proof -
  let ?s = "initial example_stores 100"
  let ?f = "initial example_foreign_stores 100"
  have h1: "step example_config (Resume 1 RUnit) example_approve_awaiting_address
        = Some example_approve_submitted
      \<and> effects example_approve_submitted
          = effects example_approve_awaiting_address @ [CallApprove ERC721 example_approve_args]
      \<and> CallApprove ERC721 example_approve_args \<in> set [CallApprove ERC721 example_approve_args]"
    by (simp add: example_state_defs example_defs model_defs)
  note c1 = approve_spender_follows_token_standard
    [where cfg = example_config and s = example_approve_awaiting_address and a = "Resume 1 RUnit"
       and s' = example_approve_submitted and es = "[CallApprove ERC721 example_approve_args]"
       and ty = ERC721 and args = example_approve_args,
     THEN conjunct1, THEN mp, OF h1]
  have h2: "selectedToken (stores ?s) = Some example_token
      \<and> network (stores ?s) = Some 1 \<and> destNetwork (stores ?s) = Some 10 \<and> (10::nat) \<noteq> 0
      \<and> getAddress example_config (map_of (tk_addresses example_token) 1) = Inr (Some example_token_address)
      \<and> example_token_address \<noteq> []
      \<and> routingContractsMap example_config 1 = Some example_routes
      \<and> example_routes 10 = Some example_vaults"
    by (simp add: example_defs)
  note c2 = approve_spender_follows_token_standard
    [where cfg = example_config and s = ?s and tok = example_token and n = 1 and d = 10
       and addr = example_token_address and row = example_routes and ?r0.0 = example_vaults
       and w = "Wallet 0",
     THEN conjunct2, THEN conjunct1, THEN mp, OF h2]
  have h3: "selectedToken (stores ?f) = Some example_foreign_token
      \<and> network (stores ?f) = Some 1 \<and> destNetwork (stores ?f) = Some 10 \<and> (10::nat) \<noteq> 0
      \<and> getAddress example_lenient_config (map_of (tk_addresses example_foreign_token) 1) = Inr None
      \<and> falsy_str None \<and> ''0xCanonical'' \<noteq> []
      \<and> routingContractsMap example_lenient_config 1 = Some example_routes
      \<and> example_routes 10 = Some example_vaults"
    by (simp add: example_state_defs example_defs falsy_str_def)
  note c3 = approve_spender_follows_token_standard
    [where cfg = example_lenient_config and s = ?f and tok = example_foreign_token and n = 1
       and d = 10 and ?a0.0 = None and addr = "''0xCanonical''" and row = example_routes
       and ?r0.0 = example_vaults and w = "Wallet 0",
     THEN conjunct2, THEN conjunct2, THEN mp, OF h3]
  have e: "tk_type example_token = ERC721 \<and> erc721VaultAddress example_vaults = ''0xVault721''
   \<and> tk_type example_foreign_token = ERC1155 \<and> erc1155VaultAddress example_vaults = ''0xVault1155''"
    by (simp add: example_state_defs example_defs)
  show ?thesis
    by (rule conjI[OF h1 conjI[OF c1 conjI[OF h2 conjI[OF c2 conjI[OF h3 conjI[OF c3 e]]]]]])
qed

section \<open>A failed bridge() call\<close>

text \<open>
  Claim C6. When the \<^verbatim>\<open>try\<close> block of \<^verbatim>\<open>bridge()\<close>, resumed at any of its suspension points,
  raises an error, the call ends with \<open>bridging\<close> false, the store and the status unchanged,
  nothing of the call left suspended (so no record can follow), no call to a collaborator
  in that piece, and the error logged and handed to the bridge-error handler.
\<close>

theorem bridge_failure_resets_bridging:
  assumes "i < length (tasks s)"
    and "bridge_try cfg (tasks s ! i) out (s\<lparr>tasks := remove_nth i (tasks s)\<rparr>) = Some (Some err, s1)"
  shows "\<exists>s'. step cfg (Resume i out) s = Some s' \<and> bridging s' = False
           \<and> txStore s' = txStore s \<and> bridgingStatus s' = bridgingStatus s
           \<and> tasks s' = remove_nth i (tasks s)
           \<and> effects s' = effects s @ [ConsoleError err, HandleBridgeError err]"
proof -
  let ?s0 = "s\<lparr>tasks := remove_nth i (tasks s)\<rparr>"
  have na: "approve_try cfg (tasks s ! i) out ?s0 = None"
    using assms(2) by (rule bridge_try_not_approve)
  have st: "step cfg (Resume i out) s = Some (catch_bridge (Some err, s1))"
    using assms na by (simp add: resume_def)
  from bridge_try_raised[OF assms(2)] have
    "tasks s1 = remove_nth i (tasks s)" "effects s1 = effects s" "txStore s1 = txStore s"
    "bridgingStatus s1 = bridgingStatus s"
    by simp_all
  then show ?thesis
    by (simp add: st catch_bridge_def emit_def del: step.simps)
qed

text \<open>
  The scenario with the wallet request rejected.
\<close>

theorem bridge_failure_resets_bridging_witness:
  "0 < length (tasks example_awaiting_wallet)
   \<and> bridge_try example_config (tasks example_awaiting_wallet ! 0)
       (Rejected (Upstream ''User rejected the request''))
       (example_awaiting_wallet\<lparr>tasks := remove_nth 0 (tasks example_awaiting_wallet)\<rparr>)
     = Some (Some (Upstream ''User rejected the request''), example_awaiting_wallet\<lparr>tasks := []\<rparr>)
   \<and> bridging example_awaiting_wallet = True
   \<and> (\<exists>s'. step example_config (Resume 0 (Rejected (Upstream ''User rejected the request'')))
              example_awaiting_wallet = Some s'
          \<and> bridging s' = False \<and> txStore s' = txStore example_awaiting_wallet
          \<and> bridgingStatus s' = bridgingStatus example_awaiting_wallet
          \<and> tasks s' = remove_nth 0 (tasks example_awaiting_wallet)
          \<and> effects s' = effects example_awaiting_wallet
               @ [ConsoleError (Upstream ''User rejected the request''),
                  HandleBridgeError (Upstream ''User rejected the request'')])"
proof -
  have h1: "0 < length (tasks example_awaiting_wallet)"
    by (simp add: example_state_defs)
  have h2: "bridge_try example_config (tasks example_awaiting_wallet ! 0)
       (Rejected (Upstream ''User rejected the request''))
       (example_awaiting_wallet\<lparr>tasks := remove_nth 0 (tasks example_awaiting_wallet)\<rparr>)
     = Some (Some (Upstream ''User rejected the request''), example_awaiting_wallet\<lparr>tasks := []\<rparr>)"
    by (simp add: example_state_defs remove_nth_def)
  have e: "bridging example_awaiting_wallet = True"
    by (simp add: example_state_defs)
  note c = bridge_failure_resets_bridging[OF h1 h2]
  show ?thesis by (rule conjI[OF h1 conjI[OF h2 conjI[OF e c]]])
qed

section \<open>No address for the token\<close>

text \<open>
  Claim C7 says that \<^verbatim>\<open>approve()\<close> fails with the address-not-found error when the selected
  token has no address on the source chain and the cross-chain resolver produces none
  either. The code does not do this. Line 99 passes the missing entry to \<^verbatim>\<open>getAddress\<close>,
  which raises \<^verbatim>\<open>InvalidAddressError\<close> on it: the test of line 101 and the resolver of lines
  102 to 109 are never reached. In the scenario with a token that has no address on
  chain 1, \<^verbatim>\<open>approve()\<close> requests the wallet, logs \<^verbatim>\<open>InvalidAddressError\<close> and hands it to the
  bridge-error handler, never calls the resolver or the bridge's \<^verbatim>\<open>approve\<close>, and leaves only
  the pause check suspended.
\<close>

theorem approve_missing_address_raises_invalid_address:
  "map_of (tk_addresses example_foreign_token) 1 = None
   \<and> getAddress example_config None = Inl (Upstream ''InvalidAddressError'')
   \<and> map_option effects
        (run example_config [InvokeApprove, Resume 1 (RWallet (Wallet 0))]
           (initial example_foreign_stores 100))
       = Some [CallIsBridgePaused, CallGetConnectedWallet 1,
               ConsoleError (Upstream ''InvalidAddressError''),
               HandleBridgeError (Upstream ''InvalidAddressError'')]
   \<and> map_option tasks
        (run example_config [InvokeApprove, Resume 1 (RWallet (Wallet 0))]
           (initial example_foreign_stores 100))
       = Some [PauseCheck]"
  by (simp add: example_state_defs example_defs model_defs)

section \<open>The persisted record\<close>

text \<open>
  Claim C8, as amended. The claim says that the timestamp of the persisted record is the
  submission time. The record is built in the callback of the confirmation, and
  \<^verbatim>\<open>Date.now()\<close> is read there. Amended: when the confirmation of a bridge transaction
  resolves, the persisted record has the hash of the transaction, the amount, symbol,
  decimals and token type of the stores at that moment, the source and destination chain
  id captured when the hash arrived (as bigint), status NEW, and as timestamp the clock
  at the moment the callback runs; in the scenario (source chain 1, destination chain 10)
  the one record has source chain 1, destination chain 10 and status NEW.
\<close>

theorem confirmed_record_fields:
  "(i < length (tasks s) \<and> tasks s ! i = AwaitBridgeTx \<and> h \<noteq> []
      \<and> network (stores s) = Some c \<and> c \<noteq> 0 \<and> destNetwork (stores s) = Some d \<and> d \<noteq> 0
      \<and> account_address (stores s) = Some u \<and> u \<noteq> [] \<and> chainConfig cfg c = Some x \<longrightarrow>
      map_option tasks (step cfg (Resume i (RHash (Some h))) s)
        = Some (remove_nth i (tasks s) @ [Confirm h c d u x]))
   \<and> (j < length (tasks s) \<and> tasks s ! j = Confirm h c d u x \<and> account (stores s) = Some acc \<longrightarrow>
      (\<exists>s'. step cfg (Resume j RUnit) s = Some s'
           \<and> txStore s' = (txStore s)(u := txStore s u @
               [\<lparr>hash = h, from_addr = address acc, amount = enteredAmount (stores s),
                 symbol = map_option tk_symbol (selectedToken (stores s)),
                 decimals = map_option tk_decimals (selectedToken (stores s)),
                 srcChainId = int c, destChainId = int d,
                 tokenType = map_option tk_type (selectedToken (stores s)),
                 status = NEW, timestamp = clock s\<rparr>])))
   \<and> run example_config
        [InvokeBridge, Resume 0 (RWallet (Wallet 0)), Resume 0 (RArgs (BridgeArgs 0)),
         Resume 0 (RHash (Some ''0xabc'')), SetClock 200, Resume 0 RUnit]
        (initial example_stores 100) = Some example_confirmed
   \<and> txStore example_confirmed ''0xUser'' = [example_record]
   \<and> srcChainId example_record = 1 \<and> destChainId example_record = 10
   \<and> status example_record = NEW \<and> tokenType example_record = Some ERC721
   \<and> timestamp example_record = 200"
proof (intro conjI impI)
  assume "i < length (tasks s) \<and> tasks s ! i = AwaitBridgeTx \<and> h \<noteq> []
      \<and> network (stores s) = Some c \<and> c \<noteq> 0 \<and> destNetwork (stores s) = Some d \<and> d \<noteq> 0
      \<and> account_address (stores s) = Some u \<and> u \<noteq> [] \<and> chainConfig cfg c = Some x"
  then show "map_option tasks (step cfg (Resume i (RHash (Some h))) s)
        = Some (remove_nth i (tasks s) @ [Confirm h c d u x])"
    by (simp add: step_register_confirm del: step.simps)
next
  assume h: "j < length (tasks s) \<and> tasks s ! j = Confirm h c d u x \<and> account (stores s) = Some acc"
  let ?s0 = "s\<lparr>tasks := remove_nth j (tasks s)\<rparr>"
  from h have acc: "account (stores ?s0) = Some acc" by simp
  from h have "step cfg (Resume j RUnit) s = Some (on_confirmed h c d u x ?s0)"
    by (simp add: step_confirm del: step.simps)
  then show "\<exists>s'. step cfg (Resume j RUnit) s = Some s'
           \<and> txStore s' = (txStore s)(u := txStore s u @
               [\<lparr>hash = h, from_addr = address acc, amount = enteredAmount (stores s),
                 symbol = map_option tk_symbol (selectedToken (stores s)),
                 decimals = map_option tk_decimals (selectedToken (stores s)),
                 srcChainId = int c, destChainId = int d,
                 tokenType = map_option tk_type (selectedToken (stores s)),
                 status = NEW, timestamp = clock s\<rparr>])"
    by (simp add: on_confirmed_account[OF acc] del: step.simps)
next
  show "run example_config
        [InvokeBridge, Resume 0 (RWallet (Wallet 0)), Resume 0 (RArgs (BridgeArgs 0)),
         Resume 0 (RHash (Some ''0xabc'')), SetClock 200, Resume 0 RUnit]
        (initial example_stores 100) = Some example_confirmed"
    by (simp add: example_state_defs example_defs model_defs)
qed (simp_all add: example_state_defs)

text \<open>
  The scenario, with the clock at 100 on submission and at 200 on confirmation.
\<close>

theorem confirmed_record_fields_witness:
  "(0 < length (tasks example_awaiting_hash) \<and> tasks example_awaiting_hash ! 0 = AwaitBridgeTx
      \<and> ''0xabc'' \<noteq> []
      \<and> network (stores example_awaiting_hash) = Some 1 \<and> (1::nat) \<noteq> 0
      \<and> destNetwork (stores example_awaiting_hash) = Some 10 \<and> (10::nat) \<noteq> 0
      \<and> account_address (stores example_awaiting_hash) = Some ''0xUser'' \<and> ''0xUser'' \<noteq> []
      \<and> chainConfig example_config 1 = Some ''https://explorer.example'')
   \<and> map_option tasks (step example_config (Resume 0 (RHash (Some ''0xabc''))) example_awaiting_hash)
       = Some (remove_nth 0 (tasks example_awaiting_hash)
                @ [Confirm ''0xabc'' 1 10 ''0xUser'' ''https://explorer.example''])
   \<and> (0 < length (tasks (example_awaiting_confirmation\<lparr>clock := 200\<rparr>))
      \<and> tasks (example_awaiting_confirmation\<lparr>clock := 200\<rparr>) ! 0
           = Confirm ''0xabc'' 1 10 ''0xUser'' ''https://explorer.example''
      \<and> account (stores (example_awaiting_confirmation\<lparr>clock := 200\<rparr>))
           = Some \<lparr>address = Some ''0xUser''\<rparr>)
   \<and> (\<exists>s'. step example_config (Resume 0 RUnit) (example_awaiting_confirmation\<lparr>clock := 200\<rparr>) = Some s'
          \<and> txStore s' = (txStore (example_awaiting_confirmation\<lparr>clock := 200\<rparr>))
               (''0xUser'' := txStore (example_awaiting_confirmation\<lparr>clock := 200\<rparr>) ''0xUser'' @
                 [\<lparr>hash = ''0xabc'', from_addr = address \<lparr>address = Some ''0xUser''\<rparr>,
                   amount = enteredAmount (stores (example_awaiting_confirmation\<lparr>clock := 200\<rparr>)),
                   symbol = map_option tk_symbol
                     (selectedToken (stores (example_awaiting_confirmation\<lparr>clock := 200\<rparr>))),
                   decimals = map_option tk_decimals
                     (selectedToken (stores (example_awaiting_confirmation\<lparr>clock := 200\<rparr>))),
                   srcChainId = int 1, destChainId = int 10,
                   tokenType = map_option tk_type
                     (selectedToken (stores (example_awaiting_confirmation\<lparr>clock := 200\<rparr>))),
                   status = NEW,
                   timestamp = clock (example_awaiting_confirmation\<lparr>clock := 200\<rparr>)\<rparr>]))
   \<and> clock (example_awaiting_confirmation\<lparr>clock := 200\<rparr>) = 200
   \<and> clock example_awaiting_hash = 100"
proof -
  let ?c = "example_awaiting_confirmation\<lparr>clock := 200\<rparr>"
  have h1: "0 < length (tasks example_awaiting_hash) \<and> tasks example_awaiting_hash ! 0 = AwaitBridgeTx
      \<and> ''0xabc'' \<noteq> []
      \<and> network (stores example_awaiting_hash) = Some 1 \<and> (1::nat) \<noteq> 0
      \<and> destNetwork (stores example_awaiting_hash) = Some 10 \<and> (10::nat) \<noteq> 0
      \<and> account_address (stores example_awaiting_hash) = Some ''0xUser'' \<and> ''0xUser'' \<noteq> []
      \<and> chainConfig example_config 1 = Some ''https://explorer.example''"
    by (simp add: example_state_defs example_defs account_address_def)
  note c1 = confirmed_record_fields
    [where cfg = example_config and s = example_awaiting_hash and i = 0 and h = "''0xabc''"
       and c = 1 and d = 10 and u = "''0xUser''" and x = "''https://explorer.example''",
     THEN conjunct1, THEN mp, OF h1]
  have h2: "0 < length (tasks ?c)
      \<and> tasks ?c ! 0 = Confirm ''0xabc'' 1 10 ''0xUser'' ''https://explorer.example''
      \<and> account (stores ?c) = Some \<lparr>address = Some ''0xUser''\<rparr>"
    by (simp add: example_state_defs example_defs)
  note c2 = confirmed_record_fields
    [where cfg = example_config and s = ?c and j = 0 and h = "''0xabc''"
       and c = 1 and d = 10 and u = "''0xUser''" and x = "''https://explorer.example''"
       and acc = "\<lparr>address = Some ''0xUser''\<rparr>",
     THEN conjunct2, THEN conjunct1, THEN mp, OF h2]
  have e: "clock ?c = 200 \<and> clock example_awaiting_hash = 100"
    by (simp add: example_state_defs example_defs)
  show ?thesis by (rule conjI[OF h1 conjI[OF c1 conjI[OF h2 conjI[OF c2 e]]]])
qed

text \<open>
  Claim C8 as stated fails: the transaction is submitted while the clock reads 100, the
  confirmation arrives at 200, and the record carries 200.
\<close>

theorem timestamp_is_confirmation_time_counterexample:
  "map_option clock
     (run example_config
        [InvokeBridge, Resume 0 (RWallet (Wallet 0)), Resume 0 (RArgs (BridgeArgs 0)),
         Resume 0 (RHash (Some ''0xabc''))]
        (initial example_stores 100)) = Some 100
   \<and> map timestamp
       (records_of ''0xUser''
          (run example_config
             [InvokeBridge, Resume 0 (RWallet (Wallet 0)), Resume 0 (RArgs (BridgeArgs 0)),
              Resume 0 (RHash (Some ''0xabc'')), SetClock 200, Resume 0 RUnit]
             (initial example_stores 100))) = [200]"
  by (simp add: example_defs model_defs)

section \<open>The status\<close>

lemma step_status_done:
  assumes "step cfg a s = Some s'" and "bridgingStatus s = StatusDone"
  shows "bridgingStatus s' = StatusDone"
  using step_cases[OF assms(1)] assms(2) by (auto simp: on_confirmed_frame)

lemma states_done:
  "bridgingStatus s = StatusDone \<Longrightarrow> \<forall>s' \<in> set (states cfg as s). bridgingStatus s' = StatusDone"
proof (induction as arbitrary: s)
  case Nil
  then show ?case by simp
next
  case (Cons a as)
  show ?case
  proof (cases "step cfg a s")
    case None
    with Cons.prems show ?thesis by simp
  next
    case (Some s1)
    from Some Cons.prems have "bridgingStatus s1 = StatusDone" by (rule step_status_done)
    from Cons.IH[OF this] Some Cons.prems show ?thesis by simp
  qed
qed

lemma done_transitions_all_done:
  "\<forall>x \<in> set xs. x = StatusDone \<Longrightarrow> done_transitions xs = 0"
  by (induction xs rule: done_transitions.induct) auto

lemma states_head: "\<exists>rest. states cfg as s = s # rest"
  by (cases as) auto

lemma done_transitions_states:
  "done_transitions (map bridgingStatus (states cfg as s)) \<le> 1"
proof (induction as arbitrary: s)
  case Nil
  show ?case by simp
next
  case (Cons a as)
  show ?case
  proof (cases "step cfg a s")
    case None
    then show ?thesis by simp
  next
    case (Some s1)
    obtain rest where rest: "states cfg as s1 = s1 # rest"
      using states_head by blast
    show ?thesis
    proof (cases "bridgingStatus s1")
      case StatusPending
      with Cons.IH[of s1] Some rest show ?thesis by simp
    next
      case StatusDone
      then have "\<forall>x \<in> set (map bridgingStatus (states cfg as s1)). x = StatusDone"
        using states_done[of s1 cfg as] by auto
      then have "done_transitions (map bridgingStatus (states cfg as s1)) = 0"
        by (rule done_transitions_all_done)
      with Some rest show ?thesis by simp
    qed
  qed
qed

text \<open>
  Claim C9. Along every sequence of calls of \<^verbatim>\<open>approve()\<close> and \<^verbatim>\<open>bridge()\<close>, of settled
  promises and of changes of the stores, \<open>bridgingStatus\<close> goes from pending to done at most
  once; once done it stays done; and a step that changes it is the resolution of the
  tracker's promise for a bridge transaction, taking it from pending to done.
\<close>

theorem bridgingStatus_done_at_most_once:
  "done_transitions (map bridgingStatus (states cfg as s)) \<le> 1
   \<and> (bridgingStatus s = StatusDone \<longrightarrow>
        (\<forall>s' \<in> set (states cfg as s). bridgingStatus s' = StatusDone))
   \<and> (step cfg a s = Some s' \<and> bridgingStatus s' \<noteq> bridgingStatus s \<longrightarrow>
        bridgingStatus s = StatusPending \<and> bridgingStatus s' = StatusDone
        \<and> (\<exists>i h c d u x. a = Resume i RUnit \<and> i < length (tasks s)
               \<and> tasks s ! i = Confirm h c d u x))"
proof (intro conjI impI)
  show "done_transitions (map bridgingStatus (states cfg as s)) \<le> 1"
    by (rule done_transitions_states)
next
  assume "bridgingStatus s = StatusDone"
  then show "\<forall>s' \<in> set (states cfg as s). bridgingStatus s' = StatusDone"
    by (rule states_done)
next
  assume a: "step cfg a s = Some s' \<and> bridgingStatus s' \<noteq> bridgingStatus s"
  with step_cases[of cfg a s s'] obtain i h c d u x where
    r: "a = Resume i RUnit" "i < length (tasks s)" "tasks s ! i = Confirm h c d u x"
       "s' = on_confirmed h c d u x (s\<lparr>tasks := remove_nth i (tasks s)\<rparr>)"
    by blast
  from r(4) have d: "bridgingStatus s' = StatusDone" by (simp add: on_confirmed_frame)
  with a show "bridgingStatus s = StatusPending" by (cases "bridgingStatus s") auto
  from d show "bridgingStatus s' = StatusDone" .
  from r show "\<exists>i h c d u x. a = Resume i RUnit \<and> i < length (tasks s)
               \<and> tasks s ! i = Confirm h c d u x" by blast
qed

text \<open>
  The scenario, continued after the confirmation with further calls.
\<close>

theorem bridgingStatus_done_at_most_once_witness:
  "done_transitions (map bridgingStatus
      (states example_config [SetClock 200, Resume 0 RUnit, InvokeBridge, InvokeApprove]
         example_awaiting_confirmation)) \<le> 1
   \<and> map bridgingStatus
        (states example_config [SetClock 200, Resume 0 RUnit, InvokeBridge, InvokeApprove]
           example_awaiting_confirmation)
       = [StatusPending, StatusPending, StatusDone, StatusDone, StatusDone]
   \<and> bridgingStatus example_confirmed = StatusDone
   \<and> list_all (\<lambda>s'. bridgingStatus s' = StatusDone)
        (states example_config [InvokeBridge, InvokeApprove] example_confirmed)
   \<and> (step example_config (Resume 0 RUnit) (example_awaiting_confirmation\<lparr>clock := 200\<rparr>)
         = Some example_confirmed
      \<and> bridgingStatus example_confirmed
          \<noteq> bridgingStatus (example_awaiting_confirmation\<lparr>clock := 200\<rparr>))
   \<and> (bridgingStatus (example_awaiting_confirmation\<lparr>clock := 200\<rparr>) = StatusPending
      \<and> bridgingStatus example_confirmed = StatusDone
      \<and> (\<exists>i h c d u x. Resume 0 RUnit = Resume i RUnit
             \<and> i < length (tasks (example_awaiting_confirmation\<lparr>clock := 200\<rparr>))
             \<and> tasks (example_awaiting_confirmation\<lparr>clock := 200\<rparr>) ! i = Confirm h c d u x))"
proof -
  note t1 = bridgingStatus_done_at_most_once
    [where cfg = example_config and s = example_awaiting_confirmation
       and as = "[SetClock 200, Resume 0 RUnit, InvokeBridge, InvokeApprove]"]
  note t2 = bridgingStatus_done_at_most_once
    [where cfg = example_config and s = example_confirmed and as = "[InvokeBridge, InvokeApprove]"]
  note t3 = bridgingStatus_done_at_most_once
    [where cfg = example_config and s = "example_awaiting_confirmation\<lparr>clock := 200\<rparr>"
       and a = "Resume 0 RUnit" and s' = example_confirmed]
  have c1: "done_transitions (map bridgingStatus
      (states example_config [SetClock 200, Resume 0 RUnit, InvokeBridge, InvokeApprove]
         example_awaiting_confirmation)) \<le> 1"
    by (rule t1[THEN conjunct1])
  have e1: "map bridgingStatus
        (states example_config [SetClock 200, Resume 0 RUnit, InvokeBridge, InvokeApprove]
           example_awaiting_confirmation)
       = [StatusPending, StatusPending, StatusDone, StatusDone, StatusDone]"
    by (simp add: example_state_defs example_defs model_defs)
  have h2: "bridgingStatus example_confirmed = StatusDone"
    by (simp add: example_state_defs)
  have c2: "list_all (\<lambda>s'. bridgingStatus s' = StatusDone)
        (states example_config [InvokeBridge, InvokeApprove] example_confirmed)"
    unfolding list_all_iff by (rule t2[THEN conjunct2, THEN conjunct1, THEN mp, OF h2])
  have h3: "step example_config (Resume 0 RUnit) (example_awaiting_confirmation\<lparr>clock := 200\<rparr>)
         = Some example_confirmed
      \<and> bridgingStatus example_confirmed
          \<noteq> bridgingStatus (example_awaiting_confirmation\<lparr>clock := 200\<rparr>)"
    by (simp add: example_confirm_step del: step.simps) (simp add: example_state_defs example_defs)
  note c3 = t3[THEN conjunct2, THEN conjunct2, THEN mp, OF h3]
  show ?thesis
    by (rule conjI[OF c1 conjI[OF e1 conjI[OF h2 conjI[OF c2 conjI[OF h3 c3]]]]])
qed

section \<open>The handler returns early\<close>

lemma not_bridge_task_try: "\<not> bridge_task t \<Longrightarrow> bridge_try cfg t out s = None"
  by (cases t) simp_all

lemma approve_try_tasks:
  assumes "approve_try cfg t out s = Some r"
  shows "\<forall>t' \<in> set (tasks (snd r)). t' \<in> set (tasks s) \<or> \<not> bridge_task t'"
  using assms
  by (elim approve_try.elims)
     (auto simp: approve_defs emit_def suspend_def Let_def split: option.splits sum.splits if_splits)

lemma set_remove_nth: "t \<in> set (remove_nth i xs) \<Longrightarrow> t \<in> set xs"
  by (auto simp: remove_nth_def dest: in_set_takeD in_set_dropD)

lemma invoke_approve_tasks:
  "\<forall>t' \<in> set (tasks (approve s)). t' \<in> set (tasks s) \<or> \<not> bridge_task t'"
  by (auto simp: approve_def emit_def suspend_def Let_def split: option.splits)

lemma step_no_bridge:
  assumes "step cfg a s = Some s'" and "a \<noteq> InvokeBridge"
    and "\<forall>t \<in> set (tasks s). \<not> bridge_task t"
  shows "(\<forall>t \<in> set (tasks s'). \<not> bridge_task t) \<and> bridging s' = bridging s
       \<and> bridgingStatus s' = bridgingStatus s \<and> txStore s' = txStore s"
proof (cases a)
  case InvokeApprove
  with assms show ?thesis using invoke_approve_tasks[of s] by (auto simp: invoke_frame)
next
  case InvokeBridge
  with assms show ?thesis by simp
next
  case (Resume i out)
  with assms have i: "i < length (tasks s)"
    and r: "resume cfg (tasks s ! i) out (s\<lparr>tasks := remove_nth i (tasks s)\<rparr>) = Some s'"
    by (auto split: if_splits)
  let ?s0 = "s\<lparr>tasks := remove_nth i (tasks s)\<rparr>"
  from i assms(3) have nb: "\<not> bridge_task (tasks s ! i)" by simp
  have rest: "\<forall>t \<in> set (tasks ?s0). \<not> bridge_task t"
    using assms(3) by (auto dest: set_remove_nth)
  from resume_cases[OF r] show ?thesis
  proof (elim disjE exE conjE)
    fix r assume a: "approve_try cfg (tasks s ! i) out ?s0 = Some r" "s' = catch_approve r"
    from approve_try_tasks[OF a(1)] rest have "\<forall>t \<in> set (tasks (snd r)). \<not> bridge_task t"
      by auto
    with a show ?thesis using approve_try_frame[OF a(1)] by (simp add: catch_approve_frame)
  next
    fix r assume "bridge_try cfg (tasks s ! i) out ?s0 = Some r"
    with nb show ?thesis by (simp add: not_bridge_task_try)
  next
    assume "callback (tasks s ! i) out ?s0 = Some s'"
    from callback_cases[OF this] nb rest show ?thesis by auto
  qed
next
  case (SetStores st)
  with assms show ?thesis by auto
next
  case (SetClock n)
  with assms show ?thesis by auto
qed

lemma run_no_bridge:
  "run cfg as s = Some s' \<Longrightarrow> InvokeBridge \<notin> set as \<Longrightarrow> \<forall>t \<in> set (tasks s). \<not> bridge_task t
   \<Longrightarrow> bridging s' = bridging s \<and> bridgingStatus s' = bridgingStatus s \<and> txStore s' = txStore s"
proof (induction as arbitrary: s)
  case Nil
  then show ?case by simp
next
  case (Cons a as)
  from Cons.prems(1) obtain s1 where s1: "step cfg a s = Some s1" "run cfg as s1 = Some s'"
    by (auto split: option.splits)
  from Cons.prems(2) have na: "a \<noteq> InvokeBridge" "InvokeBridge \<notin> set as" by auto
  from step_no_bridge[OF s1(1) na(1) Cons.prems(3)] Cons.IH[OF s1(2) na(2)]
  show ?case by simp
qed

lemma step_handler_abort:
  assumes "i < length (tasks s)" and "tasks s ! i = AwaitBridgeTx" and "h \<noteq> []"
    and "falsy_num (network (stores s)) \<or> falsy_num (destNetwork (stores s))
         \<or> falsy_str (account_address (stores s))"
  shows "step cfg (Resume i (RHash (Some h))) s
     = Some (s\<lparr>tasks := remove_nth i (tasks s), bridgeTxHash := Some h\<rparr>)"
  using assms
  by (auto simp: resume_def bridge_defs catch_bridge_def Let_def)

text \<open>
  Claim C10, as amended. The claim ends by saying that no code path in the component ever
  resets the flag afterwards; line 180 and line 84 do, when \<^verbatim>\<open>bridge()\<close> is called again.
  Amended: if \<^verbatim>\<open>bridge()\<close> obtains a hash but the handler finds the source chain id, the
  destination chain id or the sender address missing, the handler returns before it
  registers the hash with the tracker and changes nothing (only \<^verbatim>\<open>bridgeTxHash\<close> has been
  assigned by \<^verbatim>\<open>bridge()\<close>); after a call on its own \<open>bridging\<close> is true, the status and the
  status texts are as before, no record is persisted and nothing is left suspended; and
  as long as no call of \<^verbatim>\<open>bridge()\<close> is in flight and none is made, no step changes
  \<open>bridging\<close>, \<open>bridgingStatus\<close> or the store.
\<close>

theorem handler_abort_leaves_bridging_set:
  "(i < length (tasks s) \<and> tasks s ! i = AwaitBridgeTx \<and> h \<noteq> []
      \<and> (falsy_num (network (stores s)) \<or> falsy_num (destNetwork (stores s))
          \<or> falsy_str (account_address (stores s))) \<longrightarrow>
      step cfg (Resume i (RHash (Some h))) s
        = Some (s\<lparr>tasks := remove_nth i (tasks s), bridgeTxHash := Some h\<rparr>))
   \<and> (bridgeService (stores s) = Some svc \<and> selectedToken (stores s) = Some tok
      \<and> network (stores s) = Some n \<and> destNetwork (stores s) = Some d \<and> d \<noteq> 0
      \<and> account (stores s) = Some acc \<and> address acc = Some u \<and> u \<noteq> []
      \<and> selectedNFTs (stores s) = Some nfts \<and> h \<noteq> []
      \<and> (falsy_num (network st) \<or> falsy_num (destNetwork st) \<or> falsy_str (account_address st)) \<longrightarrow>
      (\<exists>s'. run cfg [InvokeBridge, Resume (length (tasks s)) (RWallet w),
                      Resume (length (tasks s)) (RArgs b), SetStores st,
                      Resume (length (tasks s)) (RHash (Some h))] s = Some s'
           \<and> bridging s' = True \<and> bridgingStatus s' = bridgingStatus s \<and> txStore s' = txStore s
           \<and> tasks s' = tasks s \<and> statusTitle s' = statusTitle s
           \<and> statusDescription s' = statusDescription s
           \<and> effects s' = effects s @
                [CallGetConnectedWallet n,
                 CallGetBridgeArgs (Some tok) (enteredAmount (stores s))
                   \<lparr>to_addr = (if falsy_str (recipientAddress (stores s)) then Some u
                               else recipientAddress (stores s)),
                    ca_wallet = w, ca_srcChainId = n, ca_destChainId = Some d,
                    fee = processingFee (stores s)\<rparr> (map tokenId nfts),
                 CallBridge svc b (map tokenId nfts)]))
   \<and> ((\<forall>t \<in> set (tasks s). \<not> bridge_task t) \<and> InvokeBridge \<notin> set as \<and> run cfg as s = Some s2 \<longrightarrow>
      bridging s2 = bridging s \<and> bridgingStatus s2 = bridgingStatus s \<and> txStore s2 = txStore s)"
proof (intro conjI impI)
  assume "i < length (tasks s) \<and> tasks s ! i = AwaitBridgeTx \<and> h \<noteq> []
      \<and> (falsy_num (network (stores s)) \<or> falsy_num (destNetwork (stores s))
          \<or> falsy_str (account_address (stores s)))"
  then show "step cfg (Resume i (RHash (Some h))) s
        = Some (s\<lparr>tasks := remove_nth i (tasks s), bridgeTxHash := Some h\<rparr>)"
    using step_handler_abort[of i s h cfg] by blast
next
  assume a: "bridgeService (stores s) = Some svc \<and> selectedToken (stores s) = Some tok
      \<and> network (stores s) = Some n \<and> destNetwork (stores s) = Some d \<and> d \<noteq> 0
      \<and> account (stores s) = Some acc \<and> address acc = Some u \<and> u \<noteq> []
      \<and> selectedNFTs (stores s) = Some nfts \<and> h \<noteq> []
      \<and> (falsy_num (network st) \<or> falsy_num (destNetwork st) \<or> falsy_str (account_address st))"
  then show "\<exists>s'. run cfg [InvokeBridge, Resume (length (tasks s)) (RWallet w),
                      Resume (length (tasks s)) (RArgs b), SetStores st,
                      Resume (length (tasks s)) (RHash (Some h))] s = Some s'
           \<and> bridging s' = True \<and> bridgingStatus s' = bridgingStatus s \<and> txStore s' = txStore s
           \<and> tasks s' = tasks s \<and> statusTitle s' = statusTitle s
           \<and> statusDescription s' = statusDescription s
           \<and> effects s' = effects s @
                [CallGetConnectedWallet n,
                 CallGetBridgeArgs (Some tok) (enteredAmount (stores s))
                   \<lparr>to_addr = (if falsy_str (recipientAddress (stores s)) then Some u
                               else recipientAddress (stores s)),
                    ca_wallet = w, ca_srcChainId = n, ca_destChainId = Some d,
                    fee = processingFee (stores s)\<rparr> (map tokenId nfts),
                 CallBridge svc b (map tokenId nfts)]"
    by (auto simp: bridge_def bridge_defs resume_def catch_bridge_def emit_def suspend_def
        account_address_def Let_def falsy_num_def[of "Some d"] falsy_str_def[of "Some u"])
next
  assume "(\<forall>t \<in> set (tasks s). \<not> bridge_task t) \<and> InvokeBridge \<notin> set as \<and> run cfg as s = Some s2"
  then show "bridging s2 = bridging s" "bridgingStatus s2 = bridgingStatus s" "txStore s2 = txStore s"
    using run_no_bridge[of cfg as s s2] by blast+
qed

text \<open>
  The scenario with the wallet disconnected while the transaction is submitted, followed by
  a call of \<^verbatim>\<open>approve()\<close>.
\<close>

theorem handler_abort_leaves_bridging_set_witness:
  "(0 < length (tasks (example_awaiting_hash\<lparr>stores := example_disconnected\<rparr>))
      \<and> tasks (example_awaiting_hash\<lparr>stores := example_disconnected\<rparr>) ! 0 = AwaitBridgeTx
      \<and> ''0xabc'' \<noteq> []
      \<and> (falsy_num (network (stores (example_awaiting_hash\<lparr>stores := example_disconnected\<rparr>)))
          \<or> falsy_num (destNetwork (stores (example_awaiting_hash\<lparr>stores := example_disconnected\<rparr>)))
          \<or> falsy_str (account_address (stores (example_awaiting_hash\<lparr>stores := example_disconnected\<rparr>)))))
   \<and> step example_config (Resume 0 (RHash (Some ''0xabc'')))
        (example_awaiting_hash\<lparr>stores := example_disconnected\<rparr>)
       = Some (example_awaiting_hash
                \<lparr>stores := example_disconnected,
                 tasks := remove_nth 0 (tasks (example_awaiting_hash\<lparr>stores := example_disconnected\<rparr>)),
                 bridgeTxHash := Some ''0xabc''\<rparr>)
   \<and> run example_config
        [InvokeBridge, Resume 0 (RWallet (Wallet 0)), Resume 0 (RArgs (BridgeArgs 0)),
         SetStores example_disconnected, Resume 0 (RHash (Some ''0xabc''))]
        (initial example_stores 100) = Some example_aborted
   \<and> bridging example_aborted = True \<and> bridgingStatus example_aborted = StatusPending
   \<and> txStore example_aborted ''0xUser'' = []
   \<and> (tasks (approve example_aborted) = [PauseCheck, AwaitWalletA ERC721]
      \<and> InvokeBridge \<notin> set [Resume 0 (RBool True),
                               Resume 0 (Rejected (Upstream ''User rejected the request'')),
                               SetStores example_stores]
      \<and> run example_config
           [Resume 0 (RBool True),
            Resume 0 (Rejected (Upstream ''User rejected the request'')),
            SetStores example_stores]
           (approve example_aborted)
          = Some (example_aborted
                   \<lparr>stores := example_stores,
                    effects := effects example_aborted @
                      [CallIsBridgePaused, CallGetConnectedWallet 1,
                       UnhandledRejection (BridgePausedError ''Bridge is paused''),
                       ConsoleError (Upstream ''User rejected the request''),
                       HandleBridgeError (Upstream ''User rejected the request'')]\<rparr>))
   \<and> (bridging (example_aborted
                   \<lparr>stores := example_stores,
                    effects := effects example_aborted @
                      [CallIsBridgePaused, CallGetConnectedWallet 1,
                       UnhandledRejection (BridgePausedError ''Bridge is paused''),
                       ConsoleError (Upstream ''User rejected the request''),
                       HandleBridgeError (Upstream ''User rejected the request'')]\<rparr>)
         = bridging (approve example_aborted)
      \<and> bridgingStatus (example_aborted
                   \<lparr>stores := example_stores,
                    effects := effects example_aborted @
                      [CallIsBridgePaused, CallGetConnectedWallet 1,
                       UnhandledRejection (BridgePausedError ''Bridge is paused''),
                       ConsoleError (Upstream ''User rejected the request''),
                       HandleBridgeError (Upstream ''User rejected the request'')]\<rparr>)
         = bridgingStatus (approve example_aborted)
      \<and> txStore (example_aborted
                   \<lparr>stores := example_stores,
                    effects := effects example_aborted @
                      [CallIsBridgePaused, CallGetConnectedWallet 1,
                       UnhandledRejection (BridgePausedError ''Bridge is paused''),
                       ConsoleError (Upstream ''User rejected the request''),
                       HandleBridgeError (Upstream ''User rejected the request'')]\<rparr>)
         = txStore (approve example_aborted))"
proof -
  let ?s = "example_awaiting_hash\<lparr>stores := example_disconnected\<rparr>"
  let ?as = "[Resume 0 (RBool True),
              Resume 0 (Rejected (Upstream ''User rejected the request'')),
              SetStores example_stores]"
  let ?s2 = "example_aborted
                   \<lparr>stores := example_stores,
                    effects := effects example_aborted @
                      [CallIsBridgePaused, CallGetConnectedWallet 1,
                       UnhandledRejection (BridgePausedError ''Bridge is paused''),
                       ConsoleError (Upstream ''User rejected the request''),
                       HandleBridgeError (Upstream ''User rejected the request'')]\<rparr>"
  have h1: "0 < length (tasks ?s) \<and> tasks ?s ! 0 = AwaitBridgeTx \<and> ''0xabc'' \<noteq> []
      \<and> (falsy_num (network (stores ?s)) \<or> falsy_num (destNetwork (stores ?s))
          \<or> falsy_str (account_address (stores ?s)))"
    by (simp add: example_state_defs example_defs falsy_str_def account_address_def)
  have c1: "step example_config (Resume 0 (RHash (Some ''0xabc''))) ?s
       = Some (example_awaiting_hash
                \<lparr>stores := example_disconnected, tasks := remove_nth 0 (tasks ?s),
                 bridgeTxHash := Some ''0xabc''\<rparr>)"
    by (rule handler_abort_leaves_bridging_set
          [where cfg = example_config and s = ?s and i = 0 and h = "''0xabc''",
           THEN conjunct1, THEN mp, OF h1])
  have e: "run example_config
        [InvokeBridge, Resume 0 (RWallet (Wallet 0)), Resume 0 (RArgs (BridgeArgs 0)),
         SetStores example_disconnected, Resume 0 (RHash (Some ''0xabc''))]
        (initial example_stores 100) = Some example_aborted"
    by (simp add: example_state_defs example_defs model_defs)
  have f: "bridging example_aborted = True" "bridgingStatus example_aborted = StatusPending"
    "txStore example_aborted ''0xUser'' = []"
    by (simp_all add: example_state_defs example_defs)
  have t: "tasks (approve example_aborted) = [PauseCheck, AwaitWalletA ERC721]"
    by (simp add: example_state_defs example_defs model_defs)
  have n: "InvokeBridge \<notin> set ?as" by simp
  have r: "run example_config ?as (approve example_aborted) = Some ?s2"
    by (simp add: example_state_defs example_defs model_defs)
  have h3: "(\<forall>t \<in> set (tasks (approve example_aborted)). \<not> bridge_task t)
      \<and> InvokeBridge \<notin> set ?as \<and> run example_config ?as (approve example_aborted) = Some ?s2"
    using t n r by simp
  note c3 = handler_abort_leaves_bridging_set
          [where cfg = example_config and s = "approve example_aborted" and as = ?as and ?s2.0 = ?s2,
           THEN conjunct2, THEN conjunct2, THEN mp, OF h3]
  show ?thesis
    by (rule conjI[OF h1 conjI[OF c1 conjI[OF e conjI[OF f(1) conjI[OF f(2) conjI[OF f(3)
          conjI[OF conjI[OF t conjI[OF n r]] c3]]]]]]])
qed

text \<open>
  Claim C10 as stated fails: after the handler has returned early, \<open>bridging\<close> is true and
  nothing is suspended; a later call of \<^verbatim>\<open>bridge()\<close> whose wallet request is rejected
  resets \<open>bridging\<close> to false.
\<close>

theorem later_bridge_call_resets_bridging_counterexample:
  "map_option bridging
     (run example_config
        [SetStores example_disconnected, Resume 0 (RHash (Some ''0xabc''))]
        example_awaiting_hash) = Some True
   \<and> map_option tasks
       (run example_config
          [SetStores example_disconnected, Resume 0 (RHash (Some ''0xabc''))]
          example_awaiting_hash) = Some []
   \<and> map_option bridging
       (run example_config
          [SetStores example_disconnected, Resume 0 (RHash (Some ''0xabc'')),
           SetStores example_stores, InvokeBridge,
           Resume 0 (Rejected (Upstream ''User rejected the request''))]
          example_awaiting_hash) = Some False"
  by (simp add: example_state_defs example_defs model_defs)

end
